theory Spec2Isabelle
  imports Main
begin

section \<open>JavaScript strings\<close>

text \<open>
  A JavaScript string is modelled as \<open>string\<close>: a list of code units, each below 256
  (the Latin-1 range, which holds the Portuguese text the bot matches on). Characters outside
  that range, such as the emoji of the prompts, are outside the model; where a literal of the
  source contains them they are left out of the transcription, and the long prompts are named
  by constructors of \<open>message_text\<close> below rather than spelled.

  The class \<open>\d\<close> of a JavaScript regular expression is the ten ASCII digits; \<open>parseInt\<close>
  of a one-digit string is the digit's value; \<open>\s\<close> and \<open>trim\<close> agree on the white space
  below 256: tab, line feed, vertical tab, form feed, carriage return, space and no-break space.
\<close>

definition is_digit :: "char \<Rightarrow> bool" where
  "is_digit c = (48 \<le> (of_char c :: nat) \<and> (of_char c :: nat) \<le> 57)"

definition parseInt_digit :: "char \<Rightarrow> nat" where
  "parseInt_digit c = (of_char c :: nat) - 48"

definition digits_value :: "string \<Rightarrow> nat" where
  "digits_value ds = foldl (\<lambda>a c. 10 * a + parseInt_digit c) 0 ds"

definition digit_char :: "nat \<Rightarrow> char" where
  "digit_char d = char_of (48 + d)"

function nat_to_string :: "nat \<Rightarrow> string" where
  "nat_to_string n =
     (if n < 10 then [digit_char n] else nat_to_string (n div 10) @ [digit_char (n mod 10)])"
  by pat_completeness auto
termination
  by (relation "measure (\<lambda>n. n)") auto

declare nat_to_string.simps [simp del]

definition startsWith :: "string \<Rightarrow> string \<Rightarrow> bool" where
  "startsWith s p = (take (length p) s = p)"

fun js_includes :: "string \<Rightarrow> string \<Rightarrow> bool" where
  "js_includes [] k = (k = [])"
| "js_includes (c # cs) k = (startsWith (c # cs) k \<or> js_includes cs k)"

text \<open>\<^verbatim>\<open>s.replace(pattern, replacement)\<close> with a string pattern: the first occurrence only.\<close>

fun replace_first :: "string \<Rightarrow> string \<Rightarrow> string \<Rightarrow> string" where
  "replace_first [] pat rep = (if pat = [] then rep else [])"
| "replace_first (c # cs) pat rep =
     (if startsWith (c # cs) pat then rep @ drop (length pat) (c # cs)
      else c # replace_first cs pat rep)"

definition is_space :: "char \<Rightarrow> bool" where
  "is_space c = ((of_char c :: nat) \<in> {9, 10, 11, 12, 13, 32, 160})"

definition trim :: "string \<Rightarrow> string" where
  "trim s = rev (dropWhile is_space (rev (dropWhile is_space s)))"

definition toLowerCase_char :: "char \<Rightarrow> char" where
  "toLowerCase_char c =
     (let n = (of_char c :: nat)
      in if (65 \<le> n \<and> n \<le> 90) \<or> (192 \<le> n \<and> n \<le> 222 \<and> n \<noteq> 215)
         then char_of (n + 32) else c)"

definition toLowerCase :: "string \<Rightarrow> string" where
  "toLowerCase s = map toLowerCase_char s"

text \<open>
  \<open>.normalize('NFD')\<close> followed by the removal of the combining marks U+0300 to U+036F, on one
  code unit below 256: the
  letters with a canonical decomposition lose their diacritic, every other code unit is kept.
\<close>

definition strip_accent :: "char \<Rightarrow> char" where
  "strip_accent c =
     (let n = (of_char c :: nat)
      in if 192 \<le> n \<and> n \<le> 197 then CHR ''A''
         else if n = 199 then CHR ''C''
         else if 200 \<le> n \<and> n \<le> 203 then CHR ''E''
         else if 204 \<le> n \<and> n \<le> 207 then CHR ''I''
         else if n = 209 then CHR ''N''
         else if 210 \<le> n \<and> n \<le> 214 then CHR ''O''
         else if 217 \<le> n \<and> n \<le> 220 then CHR ''U''
         else if n = 221 then CHR ''Y''
         else if 224 \<le> n \<and> n \<le> 229 then CHR ''a''
         else if n = 231 then CHR ''c''
         else if 232 \<le> n \<and> n \<le> 235 then CHR ''e''
         else if 236 \<le> n \<and> n \<le> 239 then CHR ''i''
         else if n = 241 then CHR ''n''
         else if 242 \<le> n \<and> n \<le> 246 then CHR ''o''
         else if 249 \<le> n \<and> n \<le> 252 then CHR ''u''
         else if n = 253 \<or> n = 255 then CHR ''y''
         else c)"

definition is_word_char :: "char \<Rightarrow> bool" where
  "is_word_char c =
     (let n = (of_char c :: nat)
      in (48 \<le> n \<and> n \<le> 57) \<or> (65 \<le> n \<and> n \<le> 90) \<or> (97 \<le> n \<and> n \<le> 122) \<or> n = 95)"

text \<open>\<^verbatim>\<open>.replace(/\s+/g, ' ')\<close>: every run of white space becomes one space.\<close>

function collapse_spaces :: "string \<Rightarrow> string" where
  "collapse_spaces [] = []"
| "collapse_spaces (c # cs) =
     (if is_space c then CHR '' '' # collapse_spaces (dropWhile is_space cs)
      else c # collapse_spaces cs)"
  by pat_completeness auto
termination
  by (relation "measure length") (auto simp: length_dropWhile_le less_Suc_eq_le)

section \<open>Text utilities: \<open>Utils\<close>\<close>

definition normalizeText :: "string \<Rightarrow> string" where
  "normalizeText text' =
     (if text' = [] then []
      else collapse_spaces
             (map (\<lambda>c. if is_word_char c \<or> is_space c then c else CHR '' '')
                (map strip_accent (trim (toLowerCase text')))))"

definition greetings :: "string list" where
  "greetings =
     [''oi'', ''ola'', ''ol'' @ [CHR 0xE1], ''hello'', ''hi'',
      ''bom dia'', ''boa tarde'', ''boa noite'',
      ''bomdia'', ''boatarde'', ''boanoite'',
      ''oi bom dia'', ''ola bom dia'',
      ''eae'', ''e ai'', ''salve'']"

definition isGreeting :: "string \<Rightarrow> bool" where
  "isGreeting text' =
     (let normalized = normalizeText text'
      in list_ex (\<lambda>greeting. js_includes normalized greeting \<or> normalized = greeting) greetings)"

definition farewells :: "string list" where
  "farewells =
     [''tchau'', ''ate mais'', ''ate logo'', ''ate breve'',
      ''obrigado'', ''obrigada'', ''valeu'', ''ok obrigado'',
      ''tudo bem obrigado'', ''ja consegui'', ''ja resolvi'',
      ''fui'', ''vlw'', ''valeu mesmo'']"

definition isFarewell :: "string \<Rightarrow> bool" where
  "isFarewell text' =
     (let normalized = normalizeText text'
      in list_ex (\<lambda>farewell. js_includes normalized farewell) farewells)"

definition humanRequests :: "string list" where
  "humanRequests =
     [''atendente'', ''atendimento'', ''humano'', ''pessoa'',
      ''falar com alguem'', ''falar com pessoa'',
      ''quero falar com atendente'', ''preciso de ajuda'',
      ''corretor'', ''vendedor'', ''consultor'',
      ''nao consigo'', ''nao entendi'', ''ajuda'',
      ''suporte'', ''help'']"

definition isRequestingHuman :: "string \<Rightarrow> bool" where
  "isRequestingHuman text' =
     (let normalized = normalizeText text'
      in list_ex (\<lambda>request. js_includes normalized request) humanRequests)"

definition menuCommands :: "string list" where
  "menuCommands =
     [''menu'', ''inicio'', ''come'' @ [CHR 0xE7] @ ''ar'', ''comecar'',
      ''voltar'', ''start'', ''reiniciar'']"

definition isMenuCommand :: "string \<Rightarrow> bool" where
  "isMenuCommand text' =
     (let normalized = normalizeText text'
      in list_ex (\<lambda>command. normalized = command \<or> js_includes normalized command) menuCommands)"

definition backRequests :: "string list" where
  "backRequests =
     [''voltar'', ''volta'', ''anterior'', ''antes'',
      ''menu anterior'', ''opcao anterior'', ''back'']"

definition isRequestingBack :: "string \<Rightarrow> bool" where
  "isRequestingBack text' =
     (let normalized = normalizeText text'
      in list_ex (\<lambda>request. js_includes normalized request \<or> normalized = request) backRequests)"

definition numberWords :: "(string \<times> nat) list" where
  "numberWords =
     [(''um'', 1), (''uma'', 1), (''primeiro'', 1), (''primeira'', 1),
      (''dois'', 2), (''duas'', 2), (''segundo'', 2), (''segunda'', 2),
      (''tres'', 3), (''terceiro'', 3), (''terceira'', 3),
      (''quatro'', 4), (''quarto'', 4), (''quarta'', 4),
      (''cinco'', 5), (''quinto'', 5), (''quinta'', 5),
      (''seis'', 6), (''sexto'', 6), (''sexta'', 6),
      (''sete'', 7), (''setimo'', 7), (''setima'', 7),
      (''oito'', 8), (''oitavo'', 8), (''oitava'', 8),
      (''nove'', 9), (''nono'', 9), (''nona'', 9),
      (''dez'', 10), (''decimo'', 10), (''decima'', 10)]"

text \<open>
  \<open>extractOptionNumber\<close>: the digits the normalized text starts with, read by \<open>parseInt\<close>
  (exact here; JavaScript rounds above \<open>2^53\<close>), else the first number word it contains.
\<close>

definition extractOptionNumber :: "string \<Rightarrow> nat option" where
  "extractOptionNumber text' =
     (let normalized = normalizeText text'
      in if takeWhile is_digit normalized \<noteq> []
         then Some (digits_value (takeWhile is_digit normalized))
         else map_option snd (find (\<lambda>(word, number). js_includes normalized word) numberWords))"

definition formatPhone :: "string \<Rightarrow> string" where
  "formatPhone phone' =
     (if phone' = [] then []
      else let numbers = filter is_digit phone'
           in if length numbers = 11 \<and> startsWith numbers ''11'' then ''55'' @ numbers @ ''@c.us''
              else if length numbers = 10 then ''5511'' @ numbers @ ''@c.us''
              else if startsWith numbers ''55'' then numbers @ ''@c.us''
              else phone')"

text \<open>
  \<open>isValidEmail\<close>, the test of \<^verbatim>\<open>/^[^\s@]+@[^\s@]+\.[^\s@]+$/\<close>: a non-empty run without
  white space or \<open>@\<close>, an \<open>@\<close>, and a run without white space or \<open>@\<close> that has a dot with at
  least one character on each side.
\<close>

definition isValidEmail :: "string \<Rightarrow> bool" where
  "isValidEmail email =
     (let plain = (\<lambda>c. \<not> is_space c \<and> c \<noteq> CHR ''@'');
          local_part = takeWhile plain email
      in local_part \<noteq> [] \<and>
         (case dropWhile plain email of
            [] \<Rightarrow> False
          | at # domain \<Rightarrow>
              at = CHR ''@'' \<and> list_all plain domain \<and>
              list_ex (\<lambda>i. domain ! i = CHR ''.'') [1 ..< length domain - 1]))"

section \<open>National-id (CPF) validation: \<open>Utils.isValidCPF\<close>\<close>

text \<open>
  The loop \<^verbatim>\<open>for (let i = i0; i < n; i++) sum += parseInt(numbers.charAt(i)) * (w - i)\<close>.
  It is only run on a string of eleven digits with \<open>n \<le> 10\<close>, so \<open>charAt\<close> is in range.
\<close>

function cpf_sum_loop :: "string \<Rightarrow> nat \<Rightarrow> nat \<Rightarrow> nat \<Rightarrow> nat \<Rightarrow> nat" where
  "cpf_sum_loop numbers w n i acc =
     (if i < n
      then cpf_sum_loop numbers w n (Suc i) (acc + parseInt_digit (numbers ! i) * (w - i))
      else acc)"
  by pat_completeness auto
termination
  by (relation "measure (\<lambda>(numbers, w, n, i, acc). n - i)") auto

declare cpf_sum_loop.simps [simp del]

text \<open>The test \<^verbatim>\<open>/^(\d)\1{10}$/.test(numbers)\<close>: one digit followed by ten copies of it.\<close>

definition all_digits_equal :: "string \<Rightarrow> bool" where
  "all_digits_equal numbers =
     (case numbers of [] \<Rightarrow> False | c # cs \<Rightarrow> is_digit c \<and> cs = replicate 10 c)"

definition check_digit_of :: "nat \<Rightarrow> nat" where
  "check_digit_of acc = (let digit = 11 - (acc mod 11) in if digit > 9 then 0 else digit)"

definition isValidCPF :: "string \<Rightarrow> bool" where
  "isValidCPF cpf =
     (if cpf = [] then False
      else let numbers = filter is_digit cpf in
        if length numbers \<noteq> 11 then False
        else if all_digits_equal numbers then False
        else let digit1 = check_digit_of (cpf_sum_loop numbers 10 9 0 0);
                 digit2 = check_digit_of (cpf_sum_loop numbers 11 10 0 0)
             in digit1 = parseInt_digit (numbers ! 9) \<and> digit2 = parseInt_digit (numbers ! 10))"

text \<open>
  The check digits as the specification words them: the weighted mod-11 rule over the first
  nine digits (weights 10 down to 2 for the first check digit; the nine digits followed by the
  first check digit, weights 11 down to 2, for the second).
\<close>

definition weighted_mod11 :: "nat list \<Rightarrow> nat list \<Rightarrow> nat" where
  "weighted_mod11 ds ws =
     (let r = 11 - sum_list (map2 (*) ds ws) mod 11 in if r > 9 then 0 else r)"

definition cpf_check_digits :: "nat list \<Rightarrow> nat \<times> nat" where
  "cpf_check_digits ds =
     (let d1 = weighted_mod11 ds [10, 9, 8, 7, 6, 5, 4, 3, 2];
          d2 = weighted_mod11 (ds @ [d1]) [11, 10, 9, 8, 7, 6, 5, 4, 3, 2]
      in (d1, d2))"

section \<open>Timers\<close>

text \<open>
  \<open>setTimeout(callback, ms)\<close> is modelled by the time at which the callback becomes due; the
  callback itself is a separate step of the model that can only be taken at or after that
  time. Node runs a delay below 1 or above \<open>2^31 - 1\<close> milliseconds as a delay of 1.
  \<open>Date.now()\<close> is the parameter \<open>now\<close> of each operation, in milliseconds.
\<close>

definition timer_delay :: "int \<Rightarrow> int" where
  "timer_delay ms = (if 1 \<le> ms \<and> ms \<le> 2147483647 then ms else 1)"

section \<open>Deduplication cache: \<open>CacheSystem\<close>\<close>

record cache_entry =
  entry_value :: bool
  expirationTime :: int
  entry_createdAt :: int

text \<open>
  \<open>cache\<close> is the \<open>Map\<close> of the source; \<open>cache_timers\<close> holds the pending expiry callbacks
  that \<open>set\<close> schedules, each with its due time and its key.
\<close>

record cache_system =
  cache :: "string \<rightharpoonup> cache_entry"
  cache_timers :: "(int \<times> string) list"

definition defaultTTL :: int where
  "defaultTTL = 60000"

text \<open>The constructor: an empty map, and no expiry timer pending.\<close>

definition CacheSystem_new :: cache_system where
  "CacheSystem_new = \<lparr>cache = Map.empty, cache_timers = []\<rparr>"

definition cache_set ::
  "cache_system \<Rightarrow> string \<Rightarrow> bool \<Rightarrow> int option \<Rightarrow> int \<Rightarrow> cache_system" where
  "cache_set cs key v ttl_arg now =
     (let ttl = (case ttl_arg of None \<Rightarrow> defaultTTL | Some t \<Rightarrow> t);
          expiration = now + ttl
      in cs\<lparr>cache := (cache cs)(key \<mapsto>
               \<lparr>entry_value = v, expirationTime = expiration, entry_createdAt = now\<rparr>),
            cache_timers := cache_timers cs @ [(now + timer_delay ttl, key)]\<rparr>)"

definition cache_delete :: "cache_system \<Rightarrow> string \<Rightarrow> cache_system" where
  "cache_delete cs key = cs\<lparr>cache := (cache cs)(key := None)\<rparr>"

definition cache_get :: "cache_system \<Rightarrow> string \<Rightarrow> int \<Rightarrow> bool option \<times> cache_system" where
  "cache_get cs key now =
     (case cache cs key of
        None \<Rightarrow> (None, cs)
      | Some entry \<Rightarrow>
          if now > expirationTime entry then (None, cs\<lparr>cache := (cache cs)(key := None)\<rparr>)
          else (Some (entry_value entry), cs))"

definition cache_has :: "cache_system \<Rightarrow> string \<Rightarrow> int \<Rightarrow> bool \<times> cache_system" where
  "cache_has cs key now = (case cache_get cs key now of (v, cs') \<Rightarrow> (v \<noteq> None, cs'))"

definition performCleanup :: "cache_system \<Rightarrow> int \<Rightarrow> cache_system" where
  "performCleanup cs now =
     cs\<lparr>cache := (\<lambda>key. case cache cs key of
                         None \<Rightarrow> None
                       | Some entry \<Rightarrow> if now > expirationTime entry then None else Some entry)\<rparr>"

definition generateMessageKey :: "string \<Rightarrow> string \<Rightarrow> string" where
  "generateMessageKey sender messageId = ''msg_'' @ sender @ ''_'' @ messageId"

definition isMessageProcessed ::
  "cache_system \<Rightarrow> string \<Rightarrow> string \<Rightarrow> int \<Rightarrow> bool \<times> cache_system" where
  "isMessageProcessed cs sender messageId now =
     cache_has cs (generateMessageKey sender messageId) now"

definition markMessageProcessed ::
  "cache_system \<Rightarrow> string \<Rightarrow> string \<Rightarrow> int option \<Rightarrow> int \<Rightarrow> cache_system" where
  "markMessageProcessed cs sender messageId ttl_arg now =
     (let ttl = (case ttl_arg of None \<Rightarrow> defaultTTL | Some t \<Rightarrow> t)
      in cache_set cs (generateMessageKey sender messageId) True (Some ttl) now)"

definition cache_clear :: "cache_system \<Rightarrow> cache_system" where
  "cache_clear cs = cs\<lparr>cache := Map.empty\<rparr>"

text \<open>The callback \<^verbatim>\<open>() => { this.delete(key) }\<close> of a pending expiry timer, run at \<open>now\<close>.\<close>

definition expiry_timer_fires :: "cache_system \<Rightarrow> int \<Rightarrow> string \<Rightarrow> int \<Rightarrow> cache_system" where
  "expiry_timer_fires cs due key now =
     (if (due, key) \<in> set (cache_timers cs) \<and> due \<le> now
      then cache_delete (cs\<lparr>cache_timers := remove1 (due, key) (cache_timers cs)\<rparr>) key
      else cs)"

text \<open>
  What can happen to the cache between two moments: calls of its methods (the periodic sweep
  is a call of \<open>performCleanup\<close>) and the callbacks of its expiry timers.
\<close>

datatype cache_event =
    CallSet string bool "int option" int
  | CallGet string int
  | CallDelete string
  | CallCleanup int
  | CallClear
  | TimerFires int string int

fun cache_step :: "cache_system \<Rightarrow> cache_event \<Rightarrow> cache_system" where
  "cache_step cs (CallSet key v ttl now) = cache_set cs key v ttl now"
| "cache_step cs (CallGet key now) = snd (cache_get cs key now)"
| "cache_step cs (CallDelete key) = cache_delete cs key"
| "cache_step cs (CallCleanup now) = performCleanup cs now"
| "cache_step cs CallClear = cache_clear cs"
| "cache_step cs (TimerFires due key now) = expiry_timer_fires cs due key now"

fun cache_run :: "cache_system \<Rightarrow> cache_event list \<Rightarrow> cache_system" where
  "cache_run cs [] = cs"
| "cache_run cs (e # es) = cache_run (cache_step cs e) es"

text \<open>
  \<open>writes_key k e\<close>: the event inserts, deletes or clears the entry of \<open>k\<close> (a timer callback
  deletes its key). \<open>reads_after t e\<close>: the event reads the clock, and reads a time after \<open>t\<close>.
\<close>

fun writes_key :: "string \<Rightarrow> cache_event \<Rightarrow> bool" where
  "writes_key k (CallSet key v ttl now) = (key = k)"
| "writes_key k (CallGet key now) = False"
| "writes_key k (CallDelete key) = (key = k)"
| "writes_key k (CallCleanup now) = False"
| "writes_key k CallClear = True"
| "writes_key k (TimerFires due key now) = (key = k)"

fun reads_after :: "int \<Rightarrow> cache_event \<Rightarrow> bool" where
  "reads_after t (CallGet key now) = (now > t)"
| "reads_after t (CallCleanup now) = (now > t)"
| "reads_after t (CallSet key v ttl now) = False"
| "reads_after t (CallDelete key) = False"
| "reads_after t CallClear = False"
| "reads_after t (TimerFires due key now) = False"

text \<open>
  \<open>inserts_key k e\<close>: the event is a caller's \<open>set\<close> of \<open>k\<close>. \<open>calls_key k e\<close>: the event is a
  caller's \<open>set\<close> or \<open>delete\<close> of \<open>k\<close>, or a \<open>clear\<close>; the callbacks of the timers are not calls.
  \<open>happens_by t e\<close>: the clock reads at most \<open>t\<close> when the event happens. \<open>timer_pending k cs\<close>:
  an expiry timer for \<open>k\<close> is pending.
\<close>

fun inserts_key :: "string \<Rightarrow> cache_event \<Rightarrow> bool" where
  "inserts_key k (CallSet key v ttl now) = (key = k)"
| "inserts_key k (CallGet key now) = False"
| "inserts_key k (CallDelete key) = False"
| "inserts_key k (CallCleanup now) = False"
| "inserts_key k CallClear = False"
| "inserts_key k (TimerFires due key now) = False"

fun calls_key :: "string \<Rightarrow> cache_event \<Rightarrow> bool" where
  "calls_key k (CallSet key v ttl now) = (key = k)"
| "calls_key k (CallGet key now) = False"
| "calls_key k (CallDelete key) = (key = k)"
| "calls_key k (CallCleanup now) = False"
| "calls_key k CallClear = True"
| "calls_key k (TimerFires due key now) = False"

fun happens_by :: "int \<Rightarrow> cache_event \<Rightarrow> bool" where
  "happens_by t (CallSet key v ttl now) = (now \<le> t)"
| "happens_by t (CallGet key now) = (now \<le> t)"
| "happens_by t (CallDelete key) = True"
| "happens_by t (CallCleanup now) = (now \<le> t)"
| "happens_by t CallClear = True"
| "happens_by t (TimerFires due key now) = (now \<le> t)"

definition timer_pending :: "string \<Rightarrow> cache_system \<Rightarrow> bool" where
  "timer_pending k cs = list_ex (\<lambda>timer. snd timer = k) (cache_timers cs)"
section \<open>JavaScript values and JSON\<close>

text \<open>
  The values the store holds and writes to disk: \<open>null\<close>, booleans, numbers, strings, arrays
  and plain objects. An object is the list of its own properties in enumeration order, which
  is the order of insertion for the names the store uses (addresses and field names, none of
  them an array index).
  Numbers are the integers (counters and millisecond timestamps; JavaScript is exact on them
  below \<open>2^53\<close>); a number literal of a JSON text that has a fraction or an exponent is kept
  as written, under \<open>JNumOther\<close>, its floating-point value not being modelled.
\<close>

datatype json =
    JNull
  | JBool bool
  | JNum int
  | JNumOther string
  | JStr string
  | JArr "json list"
  | JObj "(string \<times> json) list"

text \<open>\<^verbatim>\<open>obj[key] = value\<close>: an existing property keeps its place, a new one goes last.\<close>

fun put_property :: "('k \<times> 'v) list \<Rightarrow> 'k \<Rightarrow> 'v \<Rightarrow> ('k \<times> 'v) list" where
  "put_property [] k v = [(k, v)]"
| "put_property ((k', v') # ms) k v =
     (if k' = k then (k, v) # ms else (k', v') # put_property ms k v)"

text \<open>
  Property access \<^verbatim>\<open>v.key\<close> and \<^verbatim>\<open>v?.key\<close> for the keys the bot uses (none of them is a
  built-in property of strings or arrays): \<open>None\<close> is \<open>undefined\<close>. Plain access throws on
  \<open>null\<close> and \<open>undefined\<close>; optional chaining gives \<open>undefined\<close> there.
\<close>

definition get_property :: "json \<Rightarrow> string \<Rightarrow> json option" where
  "get_property v key = (case v of JObj ms \<Rightarrow> map_of ms key | _ \<Rightarrow> None)"

definition optional_get :: "json option \<Rightarrow> string \<Rightarrow> json option" where
  "optional_get v key = (case v of None \<Rightarrow> None | Some u \<Rightarrow> get_property u key)"

definition truthy :: "json option \<Rightarrow> bool" where
  "truthy v = (case v of
                 None \<Rightarrow> False
               | Some JNull \<Rightarrow> False
               | Some (JBool b) \<Rightarrow> b
               | Some (JNum n) \<Rightarrow> n \<noteq> 0
               | Some (JStr s) \<Rightarrow> s \<noteq> []
               | Some _ \<Rightarrow> True)"

text \<open>
  Object spread \<^verbatim>\<open>{...v}\<close>: the own enumerable properties of \<open>v\<close>; those of a string or an
  array are its indexed elements, \<open>null\<close>, \<open>undefined\<close>, booleans and numbers have none.
\<close>

definition spread :: "json option \<Rightarrow> (string \<times> json) list" where
  "spread v = (case v of
                 Some (JObj ms) \<Rightarrow> ms
               | Some (JStr s) \<Rightarrow> map (\<lambda>i. (nat_to_string i, JStr [s ! i])) [0 ..< length s]
               | Some (JArr vs) \<Rightarrow> map (\<lambda>i. (nat_to_string i, vs ! i)) [0 ..< length vs]
               | _ \<Rightarrow> [])"

subsection \<open>\<open>JSON.stringify(value, null, 2)\<close>\<close>

definition number_to_string :: "int \<Rightarrow> string" where
  "number_to_string n =
     (if n < 0 then CHR ''-'' # nat_to_string (nat (- n)) else nat_to_string (nat n))"

definition hex_char :: "nat \<Rightarrow> char" where
  "hex_char d = (if d < 10 then char_of (48 + d) else char_of (87 + d))"

definition quote_char :: "char \<Rightarrow> string" where
  "quote_char c =
     (if c = CHR 0x08 then [CHR 0x5C, CHR ''b'']
      else if c = CHR 0x09 then [CHR 0x5C, CHR ''t'']
      else if c = CHR 0x0A then [CHR 0x5C, CHR ''n'']
      else if c = CHR 0x0C then [CHR 0x5C, CHR ''f'']
      else if c = CHR 0x0D then [CHR 0x5C, CHR ''r'']
      else if c = CHR 0x22 then [CHR 0x5C, CHR 0x22]
      else if c = CHR 0x5C then [CHR 0x5C, CHR 0x5C]
      else if (of_char c :: nat) < 32
        then [CHR 0x5C, CHR ''u'', CHR ''0'', CHR ''0'',
              hex_char ((of_char c :: nat) div 16), hex_char ((of_char c :: nat) mod 16)]
      else [c])"

definition quote_string :: "string \<Rightarrow> string" where
  "quote_string s = [CHR 0x22] @ concat (map quote_char s) @ [CHR 0x22]"

fun join_lines :: "string \<Rightarrow> string list \<Rightarrow> string" where
  "join_lines sep [] = []"
| "join_lines sep [x] = x"
| "join_lines sep (x # y # ys) = x @ sep @ join_lines sep (y # ys)"

fun serialize :: "string \<Rightarrow> json \<Rightarrow> string" where
  "serialize ind JNull = ''null''"
| "serialize ind (JBool b) = (if b then ''true'' else ''false'')"
| "serialize ind (JNum n) = number_to_string n"
| "serialize ind (JNumOther lit) = lit"
| "serialize ind (JStr s) = quote_string s"
| "serialize ind (JArr vs) =
     (if vs = [] then ''[]''
      else ''['' @ [CHR 0x0A] @ ind @ ''  '' @
           join_lines ('','' @ [CHR 0x0A] @ ind @ ''  '') (map (serialize (ind @ ''  '')) vs) @
           [CHR 0x0A] @ ind @ '']'')"
| "serialize ind (JObj ms) =
     (if ms = [] then ''{}''
      else ''{'' @ [CHR 0x0A] @ ind @ ''  '' @
           join_lines ('','' @ [CHR 0x0A] @ ind @ ''  '')
             (map (\<lambda>(k, v). quote_string k @ '': '' @ serialize (ind @ ''  '') v) ms) @
           [CHR 0x0A] @ ind @ ''}'')"

definition JSON_stringify :: "json \<Rightarrow> string" where
  "JSON_stringify v = serialize [] v"


subsection \<open>\<open>JSON.parse\<close>\<close>

text \<open>
  A recursive-descent reading of the JSON grammar. \<open>SyntaxError\<close> is the exception of
  \<open>JSON.parse\<close>. \<open>OutsideModel\<close> marks a text the model has no value for: an escape
  \<^verbatim>\<open>\uXXXX\<close> of a code unit above 255. The recursion is on a fuel that \<open>JSON_parse\<close> sets
  above the length of the text; each call consumes a character, so it does not run out.
\<close>

datatype parse_failure = SyntaxError | OutsideModel

definition is_ws :: "char \<Rightarrow> bool" where
  "is_ws c = (c = CHR 0x20 \<or> c = CHR 0x09 \<or> c = CHR 0x0A \<or> c = CHR 0x0D)"

definition skip_ws :: "string \<Rightarrow> string" where
  "skip_ws s = dropWhile is_ws s"

definition is_hex :: "char \<Rightarrow> bool" where
  "is_hex c = (is_digit c \<or> (97 \<le> (of_char c :: nat) \<and> (of_char c :: nat) \<le> 102)
                 \<or> (65 \<le> (of_char c :: nat) \<and> (of_char c :: nat) \<le> 70))"

definition hex_val :: "char \<Rightarrow> nat" where
  "hex_val c = (if is_digit c then (of_char c :: nat) - 48
                else if 97 \<le> (of_char c :: nat) then (of_char c :: nat) - 87
                else (of_char c :: nat) - 55)"

definition unescape :: "char \<Rightarrow> char option" where
  "unescape e =
     (if e = CHR 0x22 then Some (CHR 0x22)
      else if e = CHR 0x5C then Some (CHR 0x5C)
      else if e = CHR ''/'' then Some (CHR ''/'')
      else if e = CHR ''b'' then Some (CHR 0x08)
      else if e = CHR ''f'' then Some (CHR 0x0C)
      else if e = CHR ''n'' then Some (CHR 0x0A)
      else if e = CHR ''r'' then Some (CHR 0x0D)
      else if e = CHR ''t'' then Some (CHR 0x09)
      else None)"

fun parse_string_body :: "string \<Rightarrow> parse_failure + (string \<times> string)" where
  "parse_string_body [] = Inl SyntaxError"
| "parse_string_body (c # cs) =
     (if c = CHR 0x22 then Inr ([], cs)
      else if c = CHR 0x5C then
        (case cs of
           [] \<Rightarrow> Inl SyntaxError
         | e # r \<Rightarrow>
             if e = CHR ''u'' then
               (case r of
                  h1 # h2 # h3 # h4 # r' \<Rightarrow>
                    if is_hex h1 \<and> is_hex h2 \<and> is_hex h3 \<and> is_hex h4 then
                      (let n = ((hex_val h1 * 16 + hex_val h2) * 16 + hex_val h3) * 16 + hex_val h4
                       in if n < 256 then
                            (case parse_string_body r' of
                               Inl err \<Rightarrow> Inl err
                             | Inr (str, rest) \<Rightarrow> Inr (char_of n # str, rest))
                          else Inl OutsideModel)
                    else Inl SyntaxError
                | _ \<Rightarrow> Inl SyntaxError)
             else
               (case unescape e of
                  None \<Rightarrow> Inl SyntaxError
                | Some ch \<Rightarrow>
                    (case parse_string_body r of
                       Inl err \<Rightarrow> Inl err
                     | Inr (str, rest) \<Rightarrow> Inr (ch # str, rest))))
      else if (of_char c :: nat) < 32 then Inl SyntaxError
      else (case parse_string_body cs of
              Inl err \<Rightarrow> Inl err
            | Inr (str, rest) \<Rightarrow> Inr (c # str, rest)))"

definition parse_digits1 :: "string \<Rightarrow> (string \<times> string) option" where
  "parse_digits1 s = (let ds = takeWhile is_digit s in
                        if ds = [] then None else Some (ds, dropWhile is_digit s))"

definition parse_fraction :: "string \<Rightarrow> parse_failure + (string \<times> string)" where
  "parse_fraction s =
     (case s of
        c # r \<Rightarrow>
          if c = CHR ''.'' then
            (case parse_digits1 r of None \<Rightarrow> Inl SyntaxError | Some (ds, rest) \<Rightarrow> Inr (c # ds, rest))
          else Inr ([], s)
      | [] \<Rightarrow> Inr ([], s))"

definition parse_exponent :: "string \<Rightarrow> parse_failure + (string \<times> string)" where
  "parse_exponent s =
     (case s of
        c # r \<Rightarrow>
          if c = CHR ''e'' \<or> c = CHR ''E'' then
            (let (sign, r') = (case r of
                                 d # r2 \<Rightarrow> if d = CHR ''+'' \<or> d = CHR ''-'' then ([d], r2) else ([], r)
                               | [] \<Rightarrow> ([], r))
             in case parse_digits1 r' of
                  None \<Rightarrow> Inl SyntaxError
                | Some (ds, rest) \<Rightarrow> Inr (c # sign @ ds, rest))
          else Inr ([], s)
      | [] \<Rightarrow> Inr ([], s))"

definition parse_number :: "string \<Rightarrow> parse_failure + (json \<times> string)" where
  "parse_number s =
     (let (neg, s1) = (case s of c # r \<Rightarrow> if c = CHR ''-'' then (True, r) else (False, s)
                                | [] \<Rightarrow> (False, s))
      in case s1 of
           [] \<Rightarrow> Inl SyntaxError
         | c # r \<Rightarrow>
             if \<not> is_digit c then Inl SyntaxError
             else
               (let (ds, s2) = (if c = CHR ''0'' then ([c], r)
                                else (takeWhile is_digit s1, dropWhile is_digit s1))
                in case parse_fraction s2 of
                     Inl err \<Rightarrow> Inl err
                   | Inr (frac, s3) \<Rightarrow>
                       (case parse_exponent s3 of
                          Inl err \<Rightarrow> Inl err
                        | Inr (ex, s4) \<Rightarrow>
                            if frac = [] \<and> ex = []
                            then Inr (JNum (if neg then - int (digits_value ds) else int (digits_value ds)), s4)
                            else Inr (JNumOther ((if neg then ''-'' else []) @ ds @ frac @ ex), s4))))"

fun parse_value :: "nat \<Rightarrow> string \<Rightarrow> parse_failure + (json \<times> string)"
  and parse_elements :: "nat \<Rightarrow> string \<Rightarrow> json list \<Rightarrow> parse_failure + (json \<times> string)"
  and parse_members :: "nat \<Rightarrow> string \<Rightarrow> (string \<times> json) list \<Rightarrow> parse_failure + (json \<times> string)"
where
  "parse_value 0 s = Inl OutsideModel"
| "parse_value (Suc fuel) s =
     (case skip_ws s of
        [] \<Rightarrow> Inl SyntaxError
      | c # r \<Rightarrow>
          if c = CHR ''n'' then
            (if take 3 r = ''ull'' then Inr (JNull, drop 3 r) else Inl SyntaxError)
          else if c = CHR ''t'' then
            (if take 3 r = ''rue'' then Inr (JBool True, drop 3 r) else Inl SyntaxError)
          else if c = CHR ''f'' then
            (if take 4 r = ''alse'' then Inr (JBool False, drop 4 r) else Inl SyntaxError)
          else if c = CHR 0x22 then
            (case parse_string_body r of
               Inl err \<Rightarrow> Inl err
             | Inr (str, rest) \<Rightarrow> Inr (JStr str, rest))
          else if c = CHR ''['' then
            (case skip_ws r of
               [] \<Rightarrow> Inl SyntaxError
             | d # r' \<Rightarrow> if d = CHR '']'' then Inr (JArr [], r') else parse_elements fuel r [])
          else if c = CHR ''{'' then
            (case skip_ws r of
               [] \<Rightarrow> Inl SyntaxError
             | d # r' \<Rightarrow> if d = CHR ''}'' then Inr (JObj [], r') else parse_members fuel r [])
          else if c = CHR ''-'' \<or> is_digit c then parse_number (c # r)
          else Inl SyntaxError)"
| "parse_elements 0 s acc = Inl OutsideModel"
| "parse_elements (Suc fuel) s acc =
     (case parse_value fuel s of
        Inl err \<Rightarrow> Inl err
      | Inr (v, rest) \<Rightarrow>
          (case skip_ws rest of
             [] \<Rightarrow> Inl SyntaxError
           | d # r' \<Rightarrow>
               if d = CHR '','' then parse_elements fuel r' (acc @ [v])
               else if d = CHR '']'' then Inr (JArr (acc @ [v]), r')
               else Inl SyntaxError))"
| "parse_members 0 s acc = Inl OutsideModel"
| "parse_members (Suc fuel) s acc =
     (case skip_ws s of
        [] \<Rightarrow> Inl SyntaxError
      | q # r \<Rightarrow>
          if q \<noteq> CHR 0x22 then Inl SyntaxError
          else
            (case parse_string_body r of
               Inl err \<Rightarrow> Inl err
             | Inr (k, rest) \<Rightarrow>
                 (case skip_ws rest of
                    [] \<Rightarrow> Inl SyntaxError
                  | col # r1 \<Rightarrow>
                      if col \<noteq> CHR '':'' then Inl SyntaxError
                      else
                        (case parse_value fuel r1 of
                           Inl err \<Rightarrow> Inl err
                         | Inr (v, rest2) \<Rightarrow>
                             (case skip_ws rest2 of
                                [] \<Rightarrow> Inl SyntaxError
                              | d # r' \<Rightarrow>
                                  if d = CHR '','' then parse_members fuel r' (put_property acc k v)
                                  else if d = CHR ''}'' then Inr (JObj (put_property acc k v), r')
                                  else Inl SyntaxError)))))"

definition JSON_parse :: "string \<Rightarrow> parse_failure + json" where
  "JSON_parse s =
     (case parse_value (Suc (length s)) s of
        Inl err \<Rightarrow> Inl err
      | Inr (v, rest) \<Rightarrow> if skip_ws rest = [] then Inr v else Inl SyntaxError)"

section \<open>Session store: \<open>StateManager\<close>\<close>

record transition =
  t_from :: string
  t_to :: string
  t_timestamp :: int

record session =
  phone :: string
  currentFlow :: string
  currentStep :: string
  data :: json
  history :: "transition list"
  createdAt :: int
  lastActivity :: int

record stats =
  total_messages :: int
  total_users :: int
  last_reset :: int

text \<open>\<open>sessions\<close> is the object of the source keyed by address, as its list of properties.\<close>

record global_state =
  chatbot_is_on :: bool
  bot_start_time :: int
  sessions :: "(string \<times> session) list"
  stats :: stats

text \<open>
  The durable state file as \<open>loadState\<close> finds it: absent, present but failing to be read,
  or present with a content. \<open>writable\<close> says whether \<open>writeFileSync\<close> succeeds.
  \<open>reenable_timers\<close> holds the due times of the pending callbacks that \<open>disableBot\<close> schedules.
\<close>

datatype state_file = Missing | Unreadable | Content string

record state_manager =
  state :: global_state
  reenable_timers :: "int list"
  state_file :: state_file
  writable :: bool

subsection \<open>The state as a JavaScript value\<close>

definition transition_to_json :: "transition \<Rightarrow> json" where
  "transition_to_json t =
     JObj [(''from'', JStr (t_from t)), (''to'', JStr (t_to t)), (''timestamp'', JNum (t_timestamp t))]"

definition session_to_json :: "session \<Rightarrow> json" where
  "session_to_json s =
     JObj [(''phone'', JStr (phone s)),
           (''currentFlow'', JStr (currentFlow s)),
           (''currentStep'', JStr (currentStep s)),
           (''data'', data s),
           (''history'', JArr (map transition_to_json (history s))),
           (''createdAt'', JNum (createdAt s)),
           (''lastActivity'', JNum (lastActivity s))]"

definition stats_to_json :: "stats \<Rightarrow> json" where
  "stats_to_json st =
     JObj [(''total_messages'', JNum (total_messages st)),
           (''total_users'', JNum (total_users st)),
           (''last_reset'', JNum (last_reset st))]"

definition state_to_json :: "global_state \<Rightarrow> json" where
  "state_to_json st =
     JObj [(''chatbot_is_on'', JBool (chatbot_is_on st)),
           (''bot_start_time'', JNum (bot_start_time st)),
           (''sessions'', JObj (map (\<lambda>(address, s). (address, session_to_json s)) (sessions st))),
           (''stats'', stats_to_json (stats st))]"

text \<open>Reading a JavaScript value back as a state of the records above, property by property.\<close>

definition json_string :: "json option \<Rightarrow> string option" where
  "json_string v = (case v of Some (JStr s) \<Rightarrow> Some s | _ \<Rightarrow> None)"

definition json_number :: "json option \<Rightarrow> int option" where
  "json_number v = (case v of Some (JNum n) \<Rightarrow> Some n | _ \<Rightarrow> None)"

definition json_bool :: "json option \<Rightarrow> bool option" where
  "json_bool v = (case v of Some (JBool b) \<Rightarrow> Some b | _ \<Rightarrow> None)"

fun all_some :: "'a option list \<Rightarrow> 'a list option" where
  "all_some [] = Some []"
| "all_some (None # xs) = None"
| "all_some (Some x # xs) = map_option ((#) x) (all_some xs)"

definition transition_of_json :: "json \<Rightarrow> transition option" where
  "transition_of_json v =
     (case (json_string (get_property v ''from''), json_string (get_property v ''to''),
            json_number (get_property v ''timestamp'')) of
        (Some f, Some t, Some ts) \<Rightarrow> Some \<lparr>t_from = f, t_to = t, t_timestamp = ts\<rparr>
      | _ \<Rightarrow> None)"

definition session_of_json :: "json \<Rightarrow> session option" where
  "session_of_json v =
     (case (json_string (get_property v ''phone''), json_string (get_property v ''currentFlow''),
            json_string (get_property v ''currentStep''), get_property v ''data'',
            get_property v ''history'', json_number (get_property v ''createdAt''),
            json_number (get_property v ''lastActivity'')) of
        (Some p, Some f, Some st, Some d, Some (JArr hs), Some c, Some l) \<Rightarrow>
          (case all_some (map transition_of_json hs) of
             Some h \<Rightarrow> Some \<lparr>phone = p, currentFlow = f, currentStep = st, data = d,
                             history = h, createdAt = c, lastActivity = l\<rparr>
           | None \<Rightarrow> None)
      | _ \<Rightarrow> None)"

definition stats_of_json :: "json \<Rightarrow> stats option" where
  "stats_of_json v =
     (case (json_number (get_property v ''total_messages''),
            json_number (get_property v ''total_users''),
            json_number (get_property v ''last_reset'')) of
        (Some m, Some u, Some r) \<Rightarrow> Some \<lparr>total_messages = m, total_users = u, last_reset = r\<rparr>
      | _ \<Rightarrow> None)"

definition state_of_json :: "json \<Rightarrow> global_state option" where
  "state_of_json v =
     (case (json_bool (get_property v ''chatbot_is_on''),
            json_number (get_property v ''bot_start_time''),
            get_property v ''sessions'', get_property v ''stats'') of
        (Some b, Some t, Some (JObj ms), Some sv) \<Rightarrow>
          (case (all_some (map (\<lambda>(address, s). map_option (Pair address) (session_of_json s)) ms),
                 stats_of_json sv) of
             (Some ss, Some st) \<Rightarrow>
               Some \<lparr>chatbot_is_on = b, bot_start_time = t, sessions = ss, stats = st\<rparr>
           | _ \<Rightarrow> None)
      | _ \<Rightarrow> None)"

subsection \<open>Loading and saving\<close>

definition default_state :: "int \<Rightarrow> global_state" where
  "default_state now =
     \<lparr>chatbot_is_on = True, bot_start_time = now, sessions = [],
      stats = \<lparr>total_messages = 0, total_users = 0, last_reset = now\<rparr>\<rparr>"

text \<open>
  \<open>loadState\<close> returns a JavaScript value: what \<open>JSON.parse\<close> made of the file, or the default
  state when the file is missing or anything in the \<open>try\<close> block throws. \<open>None\<close> is the one
  case the model has no value for (see \<open>OutsideModel\<close>).
\<close>

definition loadState :: "state_file \<Rightarrow> int \<Rightarrow> json option" where
  "loadState f now =
     (case f of
        Missing \<Rightarrow> Some (state_to_json (default_state now))
      | Unreadable \<Rightarrow> Some (state_to_json (default_state now))
      | Content text' \<Rightarrow>
          (case JSON_parse text' of
             Inr v \<Rightarrow> Some v
           | Inl SyntaxError \<Rightarrow> Some (state_to_json (default_state now))
           | Inl OutsideModel \<Rightarrow> None))"

definition saveState :: "state_manager \<Rightarrow> state_manager" where
  "saveState sm =
     (if writable sm
      then sm\<lparr>state_file := Content (JSON_stringify (state_to_json (state sm)))\<rparr>
      else sm)"

text \<open>
  The constructor: the loaded value becomes \<open>this.state\<close>. The operations below work on the
  records, so the model starts only from a value that reads as one.
\<close>

definition StateManager_new :: "state_file \<Rightarrow> bool \<Rightarrow> int \<Rightarrow> state_manager option" where
  "StateManager_new f w now =
     (case loadState f now of
        None \<Rightarrow> None
      | Some v \<Rightarrow>
          map_option (\<lambda>st. \<lparr>state = st, reenable_timers = [], state_file = f, writable = w\<rparr>)
            (state_of_json v))"

subsection \<open>The global toggle\<close>

definition isBotActive :: "state_manager \<Rightarrow> bool" where
  "isBotActive sm = (chatbot_is_on (state sm) = True)"

definition enableBot :: "state_manager \<Rightarrow> state_manager" where
  "enableBot sm = sm\<lparr>state := (state sm)\<lparr>chatbot_is_on := True\<rparr>\<rparr>"

definition disableBot :: "state_manager \<Rightarrow> int option \<Rightarrow> int \<Rightarrow> state_manager" where
  "disableBot sm minutes_arg now =
     (let minutes = (case minutes_arg of None \<Rightarrow> 60 | Some m \<Rightarrow> m)
      in sm\<lparr>state := (state sm)\<lparr>chatbot_is_on := False\<rparr>,
            reenable_timers := reenable_timers sm @ [now + timer_delay (minutes * 60 * 1000)]\<rparr>)"

text \<open>The callback of a pending re-enable timer, run at \<open>now\<close>.\<close>

definition reenable_timer_fires :: "state_manager \<Rightarrow> int \<Rightarrow> int \<Rightarrow> state_manager" where
  "reenable_timer_fires sm due now =
     (if due \<in> set (reenable_timers sm) \<and> due \<le> now
      then saveState (sm\<lparr>state := (state sm)\<lparr>chatbot_is_on := True\<rparr>,
                         reenable_timers := remove1 due (reenable_timers sm)\<rparr>)
      else sm)"

text \<open>
  What can happen to the toggle between two moments: calls of \<open>enableBot\<close> and \<open>disableBot\<close>,
  and the callbacks of the pending timers.
\<close>

datatype toggle_event =
    CallEnable
  | CallDisable "int option" int
  | ReenableFires int int

fun toggle_step :: "state_manager \<Rightarrow> toggle_event \<Rightarrow> state_manager" where
  "toggle_step sm CallEnable = enableBot sm"
| "toggle_step sm (CallDisable minutes now) = disableBot sm minutes now"
| "toggle_step sm (ReenableFires due now) = reenable_timer_fires sm due now"

fun toggle_run :: "state_manager \<Rightarrow> toggle_event list \<Rightarrow> state_manager" where
  "toggle_run sm [] = sm"
| "toggle_run sm (e # es) = toggle_run (toggle_step sm e) es"

subsection \<open>Sessions\<close>

definition getUserSession :: "state_manager \<Rightarrow> string \<Rightarrow> int \<Rightarrow> session \<times> state_manager" where
  "getUserSession sm address now =
     (let st = state sm
      in case map_of (sessions st) address of
           None \<Rightarrow>
             (let s = \<lparr>phone = address, currentFlow = ''welcome'', currentStep = ''inicio'',
                       data = JObj [], history = [], createdAt = now, lastActivity = now\<rparr>
              in (s, sm\<lparr>state := st\<lparr>sessions := sessions st @ [(address, s)],
                                     stats := (stats st)\<lparr>total_users := total_users (stats st) + 1\<rparr>\<rparr>\<rparr>))
         | Some s \<Rightarrow>
             (let s' = s\<lparr>lastActivity := now\<rparr>
              in (s', sm\<lparr>state := st\<lparr>sessions := put_property (sessions st) address s'\<rparr>\<rparr>)))"

text \<open>The argument of \<open>updateUserSession\<close>: an object with any of the three properties.\<close>

record session_updates =
  upd_currentFlow :: "string option"
  upd_currentStep :: "string option"
  upd_data :: "json option"

definition no_updates :: session_updates where
  "no_updates = \<lparr>upd_currentFlow = None, upd_currentStep = None, upd_data = None\<rparr>"

definition updateUserSession ::
  "state_manager \<Rightarrow> string \<Rightarrow> session_updates \<Rightarrow> int \<Rightarrow> state_manager" where
  "updateUserSession sm address updates now =
     (case getUserSession sm address now of
        (s, sm1) \<Rightarrow>
          (let changes_flow = (case upd_currentFlow updates of
                                 None \<Rightarrow> False
                               | Some f \<Rightarrow> f \<noteq> [] \<and> f \<noteq> currentFlow s);
               h = (if changes_flow
                    then history s @ [\<lparr>t_from = currentFlow s,
                                       t_to = the (upd_currentFlow updates),
                                       t_timestamp = now\<rparr>]
                    else history s);
               s' = s\<lparr>currentFlow := (case upd_currentFlow updates of None \<Rightarrow> currentFlow s | Some f \<Rightarrow> f),
                      currentStep := (case upd_currentStep updates of None \<Rightarrow> currentStep s | Some p \<Rightarrow> p),
                      data := (case upd_data updates of None \<Rightarrow> data s | Some d \<Rightarrow> d),
                      history := h,
                      lastActivity := now\<rparr>
           in sm1\<lparr>state := (state sm1)\<lparr>sessions := put_property (sessions (state sm1)) address s'\<rparr>\<rparr>))"

definition removeUserSession :: "state_manager \<Rightarrow> string \<Rightarrow> state_manager" where
  "removeUserSession sm address =
     sm\<lparr>state := (state sm)\<lparr>sessions := filter (\<lambda>(a, s). a \<noteq> address) (sessions (state sm))\<rparr>\<rparr>"

definition cleanInactiveSessions :: "state_manager \<Rightarrow> int option \<Rightarrow> int \<Rightarrow> state_manager" where
  "cleanInactiveSessions sm maxInactiveHours_arg now =
     (let maxInactiveHours = (case maxInactiveHours_arg of None \<Rightarrow> 24 | Some h \<Rightarrow> h);
          cutoffTime = now - maxInactiveHours * 60 * 60 * 1000
      in sm\<lparr>state := (state sm)\<lparr>sessions :=
              filter (\<lambda>(a, s). \<not> lastActivity s < cutoffTime) (sessions (state sm))\<rparr>\<rparr>)"

definition incrementMessageCount :: "state_manager \<Rightarrow> state_manager" where
  "incrementMessageCount sm =
     sm\<lparr>state := (state sm)\<lparr>stats := (stats (state sm))\<lparr>total_messages :=
            total_messages (stats (state sm)) + 1\<rparr>\<rparr>\<rparr>"

section \<open>Menus: \<open>MenuService\<close>\<close>

record menu_row =
  row_id :: string
  rowId :: string
  row_title :: string
  row_description :: string

record menu_section =
  section_title :: string
  rows :: "menu_row list"

record menu =
  title :: string
  description :: string
  buttonText :: string
  sections :: "menu_section list"

record menu_option =
  opt_key :: string
  opt_text :: string
  opt_description :: string

definition generateMenu :: "menu_option list \<Rightarrow> string \<Rightarrow> string \<Rightarrow> string \<Rightarrow> menu" where
  "generateMenu options title' description' buttonText' =
     \<lparr>title = title', description = description', buttonText = buttonText',
      sections =
        [\<lparr>section_title = ''Op'' @ [CHR 0xE7, CHR 0xF5] @ ''es Dispon'' @ [CHR 0xED] @ ''veis'',
          rows = map (\<lambda>(index, opt).
                        \<lparr>row_id = ''option_'' @ nat_to_string (index + 1),
                         rowId = ''option_'' @ nat_to_string (index + 1) @ ''_'' @
                                   (if opt_key opt \<noteq> [] then opt_key opt else nat_to_string index),
                         row_title = opt_text opt,
                         row_description = opt_description opt\<rparr>)
                   (zip [0 ..< length options] options)\<rparr>]\<rparr>"

definition welcomeMenu :: menu where
  "welcomeMenu =
     generateMenu
       [\<lparr>opt_key = ''cliente'', opt_text = (''J'' @ [CHR 0xE1] @ '' sou cliente DJS''),
         opt_description = (''Acesse servi'' @ [CHR 0xE7] @ ''os para clientes'')\<rparr>,
        \<lparr>opt_key = ''cotacao'', opt_text = ''Quero cotar um seguro'',
         opt_description = (''Solicite uma nova cota'' @ [CHR 0xE7, CHR 0xE3] @ ''o'')\<rparr>]
       ''DJS Corretora de Seguros''
       (''Ol'' @ [CHR 0xE1] @ ''! Seja bem-vindo '' @ [CHR 0xE0] @ '' DJS Corretora de Seguros.'' @
        [CHR 0x0A, CHR 0x0A] @ ''Somos especialistas em seguros e estamos aqui para te ajudar!'' @
        [CHR 0x0A, CHR 0x0A] @ ''Como posso te orientar hoje?'')
       (''Ver Op'' @ [CHR 0xE7, CHR 0xF5] @ ''es'')"

definition mainMenu :: menu where
  "mainMenu =
     generateMenu
       [\<lparr>opt_key = ''nova_cotacao'', opt_text = (''Quero uma Nova Cota'' @ [CHR 0xE7, CHR 0xE3] @ ''o''),
         opt_description = (''Solicitar cota'' @ [CHR 0xE7, CHR 0xE3] @ ''o de seguro'')\<rparr>,
        \<lparr>opt_key = ''renovacao'',
         opt_text = (''Informa'' @ [CHR 0xE7, CHR 0xF5] @ ''es sobre Renova'' @ [CHR 0xE7, CHR 0xE3] @ ''o''),
         opt_description = (''Consultar renova'' @ [CHR 0xE7, CHR 0xE3] @ ''o de ap'' @ [CHR 0xF3] @ ''lice'')\<rparr>,
        \<lparr>opt_key = ''sinistro'', opt_text = ''Comunicar Sinistro'',
         opt_description = ''Abrir chamado de sinistro''\<rparr>,
        \<lparr>opt_key = ''segunda_via'', opt_text = (''2'' @ [CHR 0xAA] @ '' Via de Documento/Boleto''),
         opt_description = ''Solicitar segunda via''\<rparr>,
        \<lparr>opt_key = ''seguradoras'', opt_text = ''Contatos das Seguradoras'',
         opt_description = ''Lista de seguradoras parceiras''\<rparr>,
        \<lparr>opt_key = ''atendimento'', opt_text = ''Falar com Atendente'',
         opt_description = ''Transferir para corretor''\<rparr>]
       ''Menu Principal''
       ''Como posso te orientar?''
       ''Selecionar''"

section \<open>Transport: \<open>WhatsAppService\<close>\<close>

text \<open>
  The texts the bot sends. \<open>Literal\<close> is a text given in full; the other constructors name a
  literal of the source: \<open>FarewellText\<close>, \<open>TransferAckText\<close>, \<open>RestartText\<close> and \<open>ErrorText\<close>
  are those of \<open>handleGlobalCommands\<close>, \<open>transferToHuman\<close>, \<open>handleUnknownFlow\<close> and
  \<open>handleError\<close>; \<open>TransferNotification\<close> is the template of \<open>notifyBrokerTransfer\<close> with the
  client's name and contact and the reason; \<open>MenuErrorText\<close> and \<open>MenuAsText\<close> are the two
  fallbacks of \<open>sendListMessage\<close> (the second is \<open>convertMenuToText\<close> of the menu); the last
  six are the prompts of the quote intake.
\<close>

datatype message_text =
    Literal string
  | FarewellText
  | TransferAckText
  | TransferNotification json json string
  | RestartText
  | ErrorText
  | MenuErrorText
  | MenuAsText menu
  | AskNameText
  | AskEmailText
  | InvalidEmailText
  | ContinuationText
  | StepNotFoundText
  | QuoteErrorText

text \<open>The calls made on the transport client (wppconnect), the external collaborator.\<close>

datatype client_call =
    SendText string message_text
  | SendListMessage string menu
  | SendSeen string
  | StartTyping string

text \<open>A send deferred by \<open>queueMessage\<close>: the arguments of the call to repeat.\<close>

datatype queued_send =
    QueuedText string message_text bool int
  | QueuedListMessage string menu bool int

text \<open>
  \<open>has_client\<close> and \<open>isReady\<close> are the two fields \<open>setClient\<close> sets. \<open>client_accepts\<close> is the
  collaborator's answer: a call it does not accept throws. \<open>calls\<close> is the history of the
  calls it accepted. \<open>typing_timers\<close> holds the pending \<open>stopTyping\<close> callbacks.
  \<open>BROKER_WHATSAPP\<close> is the environment variable of that name.
\<close>

record whatsapp_service =
  has_client :: bool
  isReady :: bool
  client_accepts :: "client_call \<Rightarrow> bool"
  calls :: "client_call list"
  messageQueue :: "queued_send list"
  typing_timers :: "(int \<times> string) list"
  BROKER_WHATSAPP :: "string option"

definition isServiceReady :: "whatsapp_service \<Rightarrow> bool" where
  "isServiceReady ws = (isReady ws \<and> has_client ws)"

text \<open>One call on the client inside a \<open>try\<close>: recorded when accepted, \<open>False\<close> when it throws.\<close>

definition call_client :: "whatsapp_service \<Rightarrow> client_call \<Rightarrow> bool \<times> whatsapp_service" where
  "call_client ws c =
     (if has_client ws \<and> client_accepts ws c then (True, ws\<lparr>calls := calls ws @ [c]\<rparr>)
      else (False, ws))"

definition sendTyping :: "whatsapp_service \<Rightarrow> string \<Rightarrow> int \<Rightarrow> int \<Rightarrow> bool \<times> whatsapp_service" where
  "sendTyping ws to duration now =
     (if \<not> isServiceReady ws then (False, ws)
      else let formattedTo = formatPhone to
           in case call_client ws (StartTyping formattedTo) of
                (True, ws') \<Rightarrow>
                  (True, ws'\<lparr>typing_timers := typing_timers ws' @ [(now + timer_delay duration, formattedTo)]\<rparr>)
              | (False, ws') \<Rightarrow> (False, ws'))"

definition sendText ::
  "whatsapp_service \<Rightarrow> string \<Rightarrow> message_text \<Rightarrow> bool \<Rightarrow> int \<Rightarrow> int \<Rightarrow> bool \<times> whatsapp_service" where
  "sendText ws to text' withTyping delay now =
     (if \<not> isServiceReady ws
      then (False, ws\<lparr>messageQueue := messageQueue ws @ [QueuedText to text' withTyping delay]\<rparr>)
      else let formattedTo = formatPhone to;
               ws1 = (if withTyping then snd (sendTyping ws formattedTo delay now) else ws)
           in call_client ws1 (SendText formattedTo text'))"

definition validateMenuConfig :: "menu \<Rightarrow> bool" where
  "validateMenuConfig menuConfig =
     (title menuConfig \<noteq> [] \<and> list_all (\<lambda>section'. rows section' \<noteq> []) (sections menuConfig))"

definition sendListMessage ::
  "whatsapp_service \<Rightarrow> string \<Rightarrow> menu \<Rightarrow> bool \<Rightarrow> int \<Rightarrow> int \<Rightarrow> bool \<times> whatsapp_service" where
  "sendListMessage ws to menuConfig withTyping delay now =
     (if \<not> isServiceReady ws
      then (False, ws\<lparr>messageQueue := messageQueue ws @ [QueuedListMessage to menuConfig withTyping delay]\<rparr>)
      else let formattedTo = formatPhone to;
               ws1 = (if withTyping then snd (sendTyping ws formattedTo delay now) else ws)
           in if \<not> validateMenuConfig menuConfig
              then sendText ws1 to MenuErrorText False 1500 now
              else case call_client ws1 (SendListMessage formattedTo menuConfig) of
                     (True, ws2) \<Rightarrow> (True, ws2)
                   | (False, ws2) \<Rightarrow> sendText ws2 to (MenuAsText menuConfig) False 1500 now)"

definition markAsRead :: "whatsapp_service \<Rightarrow> string \<Rightarrow> bool \<times> whatsapp_service" where
  "markAsRead ws messageId =
     (if \<not> isServiceReady ws then (False, ws) else call_client ws (SendSeen messageId))"

definition defaultBrokerNumber :: "whatsapp_service \<Rightarrow> string" where
  "defaultBrokerNumber ws =
     (case BROKER_WHATSAPP ws of
        None \<Rightarrow> ''5519995910737''
      | Some n \<Rightarrow> if n = [] then ''5519995910737'' else n)"

definition notifyBrokerTransfer ::
  "whatsapp_service \<Rightarrow> json \<Rightarrow> json \<Rightarrow> string \<Rightarrow> string option \<Rightarrow> bool \<times> whatsapp_service" where
  "notifyBrokerTransfer ws clientName clientContact reason brokerNumber =
     (let brokerTo = (case brokerNumber of
                        None \<Rightarrow> defaultBrokerNumber ws
                      | Some n \<Rightarrow> if n = [] then defaultBrokerNumber ws else n);
          brokerFormatted = formatPhone brokerTo
      in call_client ws (SendText brokerFormatted (TransferNotification clientName clientContact reason)))"

text \<open>The outbound sends among the calls: texts and option lists, with their recipients.\<close>

fun is_send :: "client_call \<Rightarrow> bool" where
  "is_send (SendText to t) = True"
| "is_send (SendListMessage to m) = True"
| "is_send (SendSeen i) = False"
| "is_send (StartTyping to) = False"

definition outbound_sends :: "whatsapp_service \<Rightarrow> client_call list" where
  "outbound_sends ws = filter is_send (calls ws)"

section \<open>Flow router: \<open>MainFlow\<close>\<close>

text \<open>
  An inbound event of the transport, with the fields the router reads. \<open>list_response\<close>
  holds the \<open>id\<close> and the \<open>rowId\<close> of a structured reply (empty when absent).
\<close>

record message =
  msg_id :: string
  msg_from :: string
  msg_body :: string
  msg_type :: string
  list_response :: "(string \<times> string) option"
  button_response :: "string option"

record message_info =
  info_id :: string
  info_from :: string
  info_body :: string
  info_listResponse :: "string option"

definition processListResponse :: "message \<Rightarrow> string option" where
  "processListResponse m =
     (if msg_type m = ''list_response'' \<and> list_response m \<noteq> None
      then (case list_response m of
              Some (i, r) \<Rightarrow> Some (if i \<noteq> [] then i else r)
            | None \<Rightarrow> None)
      else if msg_type m = ''button_response'' \<and> button_response m \<noteq> None
      then button_response m
      else if msg_body m \<noteq> []
      then (case extractOptionNumber (msg_body m) of
              Some optionNumber \<Rightarrow>
                if optionNumber \<noteq> 0 then Some (''option_'' @ nat_to_string optionNumber) else None
            | None \<Rightarrow> None)
      else None)"

definition extractMessageInfo :: "message \<Rightarrow> message_info" where
  "extractMessageInfo m =
     \<lparr>info_id = msg_id m, info_from = msg_from m, info_body = msg_body m,
      info_listResponse = processListResponse m\<rparr>"

text \<open>
  What the flows work on: the session store and the transport. The deduplication cache is
  kept apart; only \<open>processMessage\<close> uses it.
\<close>

record app =
  stateManager :: state_manager
  whatsappService :: whatsapp_service

record world =
  cacheSystem :: cache_system
  services :: app

text \<open>
  A flow handler gets the sender, the input and the session, and either returns a boolean or
  throws. The handlers of \<open>MainFlow\<close> that the properties below do not depend on are not
  transcribed: the registry of flows is a parameter of \<open>processMessage\<close>.
\<close>

datatype handler_result = Returned bool | Threw

type_synonym handler = "string \<Rightarrow> string \<Rightarrow> session \<Rightarrow> int \<Rightarrow> app \<Rightarrow> handler_result \<times> app"

type_synonym registry = "string \<Rightarrow> handler option"

definition sendWelcome :: "app \<Rightarrow> string \<Rightarrow> int \<Rightarrow> bool \<times> app" where
  "sendWelcome a sender now =
     (let sm1 = updateUserSession (stateManager a) sender
                  \<lparr>upd_currentFlow = Some ''welcome_response'',
                   upd_currentStep = Some ''aguardando_escolha'', upd_data = None\<rparr> now
      in case sendListMessage (whatsappService a) sender welcomeMenu True 1200 now of
           (ok, ws1) \<Rightarrow> (ok, \<lparr>stateManager = sm1, whatsappService = ws1\<rparr>))"

definition sendMainMenu :: "app \<Rightarrow> string \<Rightarrow> int \<Rightarrow> bool \<times> app" where
  "sendMainMenu a sender now =
     (case sendListMessage (whatsappService a) sender mainMenu True 1200 now of
        (ok, ws1) \<Rightarrow> (ok, a\<lparr>whatsappService := ws1\<rparr>))"

definition default_reason :: string where
  "default_reason = ''Solicita'' @ [CHR 0xE7, CHR 0xE3] @ ''o de atendimento''"

definition not_informed :: string where
  "not_informed = ''N'' @ [CHR 0xE3] @ ''o informado''"

definition transferToHuman :: "app \<Rightarrow> string \<Rightarrow> string option \<Rightarrow> int \<Rightarrow> bool \<times> app" where
  "transferToHuman a sender reason_arg now =
     (let reason = (case reason_arg of None \<Rightarrow> default_reason | Some r \<Rightarrow> r)
      in case getUserSession (stateManager a) sender now of
           (session', sm1) \<Rightarrow>
             (let d = Some (data session');
                  quote_name = optional_get (optional_get d ''cotacao'') ''nome'';
                  quote_email = optional_get (optional_get d ''cotacao'') ''email'';
                  clientName = (if truthy quote_name then the quote_name
                                else if truthy (optional_get d ''nome'') then the (optional_get d ''nome'')
                                else JStr not_informed);
                  clientEmail = (if truthy quote_email then the quote_email
                                 else if truthy (optional_get d ''email'') then the (optional_get d ''email'')
                                 else JStr []);
                  clientContact = (if truthy (Some clientEmail) then clientEmail
                                   else JStr (replace_first sender ''@c.us'' []));
                  ws1 = snd (notifyBrokerTransfer (whatsappService a) clientName clientContact reason None);
                  ws2 = snd (sendText ws1 sender TransferAckText True 1500 now);
                  sm2 = disableBot sm1 (Some 60) now;
                  sm3 = updateUserSession sm2 sender
                          \<lparr>upd_currentFlow = Some ''atendimento'',
                           upd_currentStep = Some ''transferido'',
                           upd_data = Some (JObj [(''transferred_at'', JNum now),
                                                  (''reason'', JStr reason)])\<rparr> now
              in (True, \<lparr>stateManager = sm3, whatsappService = ws2\<rparr>)))"

definition handleGlobalCommands :: "app \<Rightarrow> string \<Rightarrow> string \<Rightarrow> int \<Rightarrow> bool \<times> app" where
  "handleGlobalCommands a sender body now =
     (let normalizedBody = normalizeText body
      in if isMenuCommand normalizedBody then
           sendWelcome
             (a\<lparr>stateManager :=
                  updateUserSession (enableBot (stateManager a)) sender
                    \<lparr>upd_currentFlow = Some ''welcome'', upd_currentStep = Some ''inicio'',
                     upd_data = Some (JObj [])\<rparr> now\<rparr>)
             sender now
         else if isGreeting normalizedBody then
           sendWelcome
             (a\<lparr>stateManager :=
                  updateUserSession (stateManager a) sender
                    \<lparr>upd_currentFlow = Some ''welcome'', upd_currentStep = Some ''inicio'',
                     upd_data = None\<rparr> now\<rparr>)
             sender now
         else if isFarewell normalizedBody then
           (True, a\<lparr>whatsappService :=
                     snd (sendText (whatsappService a) sender FarewellText True 1500 now)\<rparr>)
         else if isRequestingHuman normalizedBody then transferToHuman a sender None now
         else (False, a))"

definition handleUnknownFlow :: "app \<Rightarrow> string \<Rightarrow> int \<Rightarrow> bool \<times> app" where
  "handleUnknownFlow a sender now =
     (let sm1 = updateUserSession (stateManager a) sender
                  \<lparr>upd_currentFlow = Some ''welcome'', upd_currentStep = Some ''inicio'',
                   upd_data = Some (JObj [])\<rparr> now;
          ws1 = snd (sendText (whatsappService a) sender RestartText True 1500 now)
      in sendWelcome \<lparr>stateManager = sm1, whatsappService = ws1\<rparr> sender now)"

definition handleError :: "app \<Rightarrow> string \<Rightarrow> int \<Rightarrow> bool \<times> app" where
  "handleError a sender now =
     (False, a\<lparr>whatsappService := snd (sendText (whatsappService a) sender ErrorText True 1500 now)\<rparr>)"

definition processMessage :: "registry \<Rightarrow> world \<Rightarrow> message \<Rightarrow> int \<Rightarrow> bool \<times> world" where
  "processMessage flows w m now =
     (let messageInfo = extractMessageInfo m;
          sender = info_from messageInfo;
          body = info_body messageInfo;
          ident = info_id messageInfo;
          listResponse = info_listResponse messageInfo
      in case isMessageProcessed (cacheSystem w) sender ident now of
           (True, cs) \<Rightarrow> (False, w\<lparr>cacheSystem := cs\<rparr>)
         | (False, cs) \<Rightarrow>
             (let ws1 = snd (markAsRead (whatsappService (services w)) ident);
                  cs1 = markMessageProcessed cs sender ident None now;
                  sm1 = incrementMessageCount (stateManager (services w));
                  a1 = \<lparr>stateManager = sm1, whatsappService = ws1\<rparr>
              in if \<not> isBotActive sm1 \<and> \<not> isMenuCommand body
                 then (False, \<lparr>cacheSystem = cs1, services = a1\<rparr>)
                 else
                   (case handleGlobalCommands a1 sender body now of
                      (True, a2) \<Rightarrow> (True, \<lparr>cacheSystem = cs1, services = a2\<rparr>)
                    | (False, a2) \<Rightarrow>
                        (case getUserSession (stateManager a2) sender now of
                           (session', sm3) \<Rightarrow>
                             (let currentFlow' = (if currentFlow session' = [] then ''welcome''
                                                  else currentFlow session');
                                  ws3 = snd (sendTyping (whatsappService a2) sender 1500 now);
                                  a3 = \<lparr>stateManager = sm3, whatsappService = ws3\<rparr>
                              in case flows currentFlow' of
                                   Some flowHandler \<Rightarrow>
                                     (let userInput = (case listResponse of
                                                         Some l \<Rightarrow> if l \<noteq> [] then l else body
                                                       | None \<Rightarrow> body)
                                      in case flowHandler sender userInput session' now a3 of
                                           (Returned result, a4) \<Rightarrow>
                                             (result, \<lparr>cacheSystem = cs1, services = a4\<rparr>)
                                         | (Threw, a4) \<Rightarrow>
                                             (case handleError a4 (msg_from m) now of
                                                (result, a5) \<Rightarrow>
                                                  (False, \<lparr>cacheSystem = cs1, services = a5\<rparr>)))
                                 | None \<Rightarrow>
                                     (case handleUnknownFlow a3 sender now of
                                        (result, a4) \<Rightarrow>
                                          (result, \<lparr>cacheSystem = cs1, services = a4\<rparr>)))))))"

text \<open>The handlers of the registry that are transcribed.\<close>

definition handleWelcome :: handler where
  "handleWelcome sender input session' now a =
     (case sendWelcome a sender now of (ok, a') \<Rightarrow> (Returned ok, a'))"

definition handleAtendimento :: handler where
  "handleAtendimento sender input session' now a =
     (case transferToHuman a sender None now of (ok, a') \<Rightarrow> (Returned ok, a'))"

section \<open>Quote intake: \<open>CotacaoFlow\<close>\<close>

definition solicitarNome :: "app \<Rightarrow> string \<Rightarrow> int \<Rightarrow> bool \<times> app" where
  "solicitarNome a sender now =
     (True, a\<lparr>whatsappService := snd (sendText (whatsappService a) sender AskNameText True 1500 now)\<rparr>)"

definition oferecerContinuacao :: "app \<Rightarrow> string \<Rightarrow> int \<Rightarrow> bool \<times> app" where
  "oferecerContinuacao a sender now =
     (let ws1 = snd (sendText (whatsappService a) sender ContinuationText True 1500 now);
          sm1 = updateUserSession (stateManager a) sender
                  \<lparr>upd_currentFlow = None, upd_currentStep = Some ''continuacao'', upd_data = None\<rparr> now
      in (True, \<lparr>stateManager = sm1, whatsappService = ws1\<rparr>))"

definition start :: "app \<Rightarrow> string \<Rightarrow> int \<Rightarrow> bool \<times> app" where
  "start a sender now =
     solicitarNome
       (a\<lparr>stateManager :=
            updateUserSession (stateManager a) sender
              \<lparr>upd_currentFlow = Some ''cotacao'', upd_currentStep = Some ''coleta_nome'',
               upd_data = Some (JObj [(''cotacao'', JObj [])])\<rparr> now\<rparr>)
       sender now"

text \<open>
  \<open>handleColetaEmail\<close>. Reading \<open>session.data.cotacao\<close> throws when \<open>session.data\<close> is
  \<open>null\<close>; the exception is caught by \<open>processInput\<close>.
\<close>

definition handleColetaEmail :: handler where
  "handleColetaEmail sender input session' now a =
     (let normalized = normalizeText input
      in if js_includes input ''voltar'' \<or> js_includes normalized ''voltar'' \<or> isRequestingBack normalized
         then
           (case solicitarNome
                   (a\<lparr>stateManager :=
                        updateUserSession (stateManager a) sender
                          \<lparr>upd_currentFlow = None, upd_currentStep = Some ''coleta_nome'',
                           upd_data = None\<rparr> now\<rparr>)
                   sender now of
              (ok, a') \<Rightarrow> (Returned ok, a'))
         else
           (let email = toLowerCase (trim input)
            in if \<not> isValidEmail email
               then (Returned False,
                     a\<lparr>whatsappService :=
                         snd (sendText (whatsappService a) sender InvalidEmailText True 1500 now)\<rparr>)
               else if data session' = JNull then (Threw, a)
               else
                 (let updatedData =
                        JObj (put_property (spread (Some (data session'))) ''cotacao''
                                (JObj (put_property (spread (get_property (data session') ''cotacao''))
                                         ''email'' (JStr email))))
                  in case oferecerContinuacao
                            (a\<lparr>stateManager :=
                                 updateUserSession (stateManager a) sender
                                   \<lparr>upd_currentFlow = None, upd_currentStep = Some ''continuacao'',
                                    upd_data = Some updatedData\<rparr> now\<rparr>)
                            sender now of
                       (ok, a') \<Rightarrow> (Returned ok, a'))))"

text \<open>
  \<open>processInput\<close> dispatches on the session's step. Of the step handlers only
  \<open>handleColetaEmail\<close> is transcribed; the others are the parameter \<open>other_steps\<close>.
\<close>

definition cotacao_steps :: "registry \<Rightarrow> registry" where
  "cotacao_steps other_steps = other_steps(''coleta_email'' \<mapsto> handleColetaEmail)"

definition processInput :: "registry \<Rightarrow> app \<Rightarrow> string \<Rightarrow> string \<Rightarrow> int \<Rightarrow> bool \<times> app" where
  "processInput steps a sender input now =
     (case getUserSession (stateManager a) sender now of
        (session', sm1) \<Rightarrow>
          (let currentStep' = (if currentStep session' = [] then ''coleta_nome'' else currentStep session');
               a1 = a\<lparr>stateManager := sm1\<rparr>
           in case steps currentStep' of
                Some stepHandler \<Rightarrow>
                  (case stepHandler sender input session' now a1 of
                     (Returned result, a2) \<Rightarrow> (result, a2)
                   | (Threw, a2) \<Rightarrow>
                       (let ws3 = snd (sendText (whatsappService a2) sender QuoteErrorText True 1500 now);
                            sm3 = updateUserSession (stateManager a2) sender
                                    \<lparr>upd_currentFlow = Some ''main_menu'', upd_currentStep = None,
                                     upd_data = None\<rparr> now
                        in sendMainMenu \<lparr>stateManager = sm3, whatsappService = ws3\<rparr> sender now))
              | None \<Rightarrow>
                  start (a1\<lparr>whatsappService :=
                              snd (sendText (whatsappService a1) sender StepNotFoundText True 1500 now)\<rparr>)
                    sender now))"

definition handleCotacao :: "registry \<Rightarrow> handler" where
  "handleCotacao steps sender input session' now a =
     (case processInput steps a sender input now of (ok, a') \<Rightarrow> (Returned ok, a'))"

text \<open>
  The registry of \<open>initializeFlows\<close>, with the transcribed handlers in place and the others
  taken from the parameter \<open>other_flows\<close>.
\<close>

definition initializeFlows :: "registry \<Rightarrow> registry \<Rightarrow> registry" where
  "initializeFlows other_steps other_flows =
     other_flows(''welcome'' \<mapsto> handleWelcome,
                 ''cotacao'' \<mapsto> handleCotacao (cotacao_steps other_steps),
                 ''atendimento'' \<mapsto> handleAtendimento)"

section \<open>Notions used to state the properties\<close>

text \<open>
  \<open>dispatch\<close> is the last part of \<open>processMessage\<close> (session lookup and flow dispatch) and
  \<open>accepted\<close> is everything \<open>processMessage\<close> does to the session store and the transport
  once the event has passed the duplicate check; \<open>processMessage_new\<close> below proves that
  this is what \<open>processMessage\<close> does.
\<close>

definition dispatch :: "registry \<Rightarrow> app \<Rightarrow> message \<Rightarrow> int \<Rightarrow> bool \<times> app" where
  "dispatch flows a m now =
     (case getUserSession (stateManager a) (msg_from m) now of
        (session', sm3) \<Rightarrow>
          (let currentFlow' = (if currentFlow session' = [] then ''welcome'' else currentFlow session');
               ws3 = snd (sendTyping (whatsappService a) (msg_from m) 1500 now);
               a3 = \<lparr>stateManager = sm3, whatsappService = ws3\<rparr>
           in case flows currentFlow' of
                Some flowHandler \<Rightarrow>
                  (let userInput = (case processListResponse m of
                                      Some l \<Rightarrow> if l \<noteq> [] then l else msg_body m
                                    | None \<Rightarrow> msg_body m)
                   in case flowHandler (msg_from m) userInput session' now a3 of
                        (Returned result, a4) \<Rightarrow> (result, a4)
                      | (Threw, a4) \<Rightarrow> (False, snd (handleError a4 (msg_from m) now)))
              | None \<Rightarrow> handleUnknownFlow a3 (msg_from m) now))"

definition accepted :: "registry \<Rightarrow> app \<Rightarrow> message \<Rightarrow> int \<Rightarrow> bool \<times> app" where
  "accepted flows a m now =
     (let a1 = \<lparr>stateManager = incrementMessageCount (stateManager a),
                whatsappService = snd (markAsRead (whatsappService a) (msg_id m))\<rparr>
      in if \<not> isBotActive (stateManager a1) \<and> \<not> isMenuCommand (msg_body m) then (False, a1)
         else (case handleGlobalCommands a1 (msg_from m) (msg_body m) now of
                 (True, a2) \<Rightarrow> (True, a2)
               | (False, a2) \<Rightarrow> dispatch flows a2 m now))"

text \<open>
  The session an address has in the store; the session \<open>getUserSession\<close> returns for it; and
  the session \<open>updateUserSession\<close> stores, given the one \<open>getUserSession\<close> returned.
\<close>

definition session_of :: "state_manager \<Rightarrow> string \<Rightarrow> session option" where
  "session_of sm address = map_of (sessions (state sm)) address"

definition new_session :: "string \<Rightarrow> int \<Rightarrow> session" where
  "new_session address now =
     \<lparr>phone = address, currentFlow = ''welcome'', currentStep = ''inicio'',
      data = JObj [], history = [], createdAt = now, lastActivity = now\<rparr>"

definition current_session :: "state_manager \<Rightarrow> string \<Rightarrow> int \<Rightarrow> session" where
  "current_session sm address now =
     (case session_of sm address of
        None \<Rightarrow> new_session address now
      | Some s \<Rightarrow> s\<lparr>lastActivity := now\<rparr>)"

definition updated_session :: "session \<Rightarrow> session_updates \<Rightarrow> int \<Rightarrow> session" where
  "updated_session s updates now =
     s\<lparr>currentFlow := (case upd_currentFlow updates of None \<Rightarrow> currentFlow s | Some f \<Rightarrow> f),
       currentStep := (case upd_currentStep updates of None \<Rightarrow> currentStep s | Some p \<Rightarrow> p),
       data := (case upd_data updates of None \<Rightarrow> data s | Some d \<Rightarrow> d),
       history := (if (case upd_currentFlow updates of
                         None \<Rightarrow> False
                       | Some f \<Rightarrow> f \<noteq> [] \<and> f \<noteq> currentFlow s)
                   then history s @ [\<lparr>t_from = currentFlow s,
                                      t_to = the (upd_currentFlow updates),
                                      t_timestamp = now\<rparr>]
                   else history s),
       lastActivity := now\<rparr>"







text \<open>\<open>fires d e\<close>: the event is the callback of a re-enable timer due at \<open>d\<close>.\<close>

fun fires :: "int \<Rightarrow> toggle_event \<Rightarrow> bool" where
  "fires d CallEnable = False"
| "fires d (CallDisable minutes now) = False"
| "fires d (ReenableFires due now) = (due = d)"

section \<open>Sample states, used by the witnesses\<close>

definition sample_events :: "cache_event list" where
  "sample_events =
     [CallGet ''msg_5511999999999@c.us_A1'' 2000,
      CallSet ''msg_5511888888888@c.us_B7'' True (Some 5000) 3000,
      TimerFires 8000 ''msg_5511888888888@c.us_B7'' 8001,
      CallDelete ''msg_5511888888888@c.us_B7'',
      CallCleanup 30000,
      CallGet ''msg_5511999999999@c.us_A1'' 60999]"

definition late_events :: "cache_event list" where
  "late_events =
     [CallGet ''msg_5511999999999@c.us_A1'' 2000,
      CallSet ''msg_5511888888888@c.us_B7'' True (Some 5000) 3000,
      TimerFires 8000 ''msg_5511888888888@c.us_B7'' 8001,
      CallCleanup 30000,
      CallCleanup 61000]"

definition sample_service :: whatsapp_service where
  "sample_service =
     \<lparr>has_client = True, isReady = True, client_accepts = (\<lambda>c. True), calls = [],
      messageQueue = [], typing_timers = [], BROKER_WHATSAPP = None\<rparr>"

definition sample_manager :: "global_state \<Rightarrow> state_manager" where
  "sample_manager st = \<lparr>state = st, reenable_timers = [], state_file = Missing, writable = True\<rparr>"

definition sample_world :: "global_state \<Rightarrow> world" where
  "sample_world st =
     \<lparr>cacheSystem = CacheSystem_new,
      services = \<lparr>stateManager = sample_manager st, whatsappService = sample_service\<rparr>\<rparr>"

definition sample_message :: "string \<Rightarrow> message" where
  "sample_message body =
     \<lparr>msg_id = ''A1'', msg_from = ''5511999999999@c.us'', msg_body = body, msg_type = ''chat'',
      list_response = None, button_response = None\<rparr>"

definition no_flows :: registry where
  "no_flows = Map.empty"

text \<open>A store with one session, in the quote intake at the given step, name already collected.\<close>

definition quote_session :: "string \<Rightarrow> session" where
  "quote_session step =
     \<lparr>phone = ''5511999999999@c.us'', currentFlow = ''cotacao'', currentStep = step,
      data = JObj [(''cotacao'', JObj [(''nome'', JStr ''Maria Silva'')])],
      history = [\<lparr>t_from = ''welcome_response'', t_to = ''cotacao'', t_timestamp = 500\<rparr>],
      createdAt = 100, lastActivity = 900\<rparr>"

definition quote_state :: "string \<Rightarrow> global_state" where
  "quote_state step =
     \<lparr>chatbot_is_on = True, bot_start_time = 0,
      sessions = [(''5511999999999@c.us'', quote_session step)],
      stats = \<lparr>total_messages = 7, total_users = 1, last_reset = 0\<rparr>\<rparr>"






section \<open>Notions used to state the round trip\<close>

text \<open>
  The values the store's operations produce: no number literal kept as written, and objects
  whose property names are distinct (as those of every JavaScript object are).
\<close>

fun store_value :: "json \<Rightarrow> bool" where
  "store_value JNull = True"
| "store_value (JBool b) = True"
| "store_value (JNum n) = True"
| "store_value (JNumOther lit) = False"
| "store_value (JStr s) = True"
| "store_value (JArr vs) = list_all store_value vs"
| "store_value (JObj ms) = (distinct (map fst ms) \<and> list_all (\<lambda>m. store_value (snd m)) ms)"

text \<open>A reachable store state: distinct addresses, and session data that are store values.\<close>

definition store_state :: "global_state \<Rightarrow> bool" where
  "store_state st =
     (distinct (map fst (sessions st)) \<and> list_all (\<lambda>(a, s). store_value (data s)) (sessions st))"

text \<open>The fuel that parsing the serialization of a value takes.\<close>

fun fuel_of :: "json \<Rightarrow> nat" where
  "fuel_of JNull = 1"
| "fuel_of (JBool b) = 1"
| "fuel_of (JNum n) = 1"
| "fuel_of (JNumOther lit) = 1"
| "fuel_of (JStr s) = 1"
| "fuel_of (JArr vs) = Suc (sum_list (map (\<lambda>v. Suc (fuel_of v)) vs))"
| "fuel_of (JObj ms) = Suc (sum_list (map (\<lambda>m. Suc (fuel_of (snd m))) ms))"

definition ends_value :: "string \<Rightarrow> bool" where
  "ends_value rest = (case rest of [] \<Rightarrow> True | c # cs \<Rightarrow> c = CHR '','' \<or> c = CHR 0x0A)"

text \<open>What may follow a number literal, the indentation, and the first character of a value.\<close>

definition number_end :: "string \<Rightarrow> bool" where
  "number_end rest = (case rest of [] \<Rightarrow> True
                      | c # cs \<Rightarrow> \<not> is_digit c \<and> c \<noteq> CHR ''.'' \<and> c \<noteq> CHR ''e'' \<and> c \<noteq> CHR ''E'')"

definition all_spaces :: "string \<Rightarrow> bool" where
  "all_spaces ind = list_all (\<lambda>c. c = CHR '' '') ind"

definition value_start :: "char \<Rightarrow> bool" where
  "value_start c = (c = CHR ''n'' \<or> c = CHR ''t'' \<or> c = CHR ''f'' \<or> c = CHR 0x22 \<or>
                    c = CHR ''['' \<or> c = CHR ''{'' \<or> c = CHR ''-'' \<or> is_digit c)"

section \<open>Properties of the national-id validator\<close>

lemma cpf_sum_loop_eq:
  "cpf_sum_loop numbers w n i acc =
     acc + (\<Sum>k = i..<n. parseInt_digit (numbers ! k) * (w - k))"
proof (induction numbers w n i acc rule: cpf_sum_loop.induct)
  case (1 numbers w n i acc)
  show ?case
  proof (cases "i < n")
    case True
    with 1 show ?thesis
      by (subst cpf_sum_loop.simps) (simp add: sum.atLeast_Suc_lessThan)
  next
    case False
    then show ?thesis by (subst cpf_sum_loop.simps) simp
  qed
qed

lemma list11:
  assumes "length (s :: 'a list) = 11"
  obtains a b c d e f g h i j k where "s = [a, b, c, d, e, f, g, h, i, j, k]"
proof -
  from assms show thesis
    by (auto simp: numeral_eq_Suc length_Suc_conv intro: that)
qed

lemma sum_first9:
  "cpf_sum_loop [a, b, c, d, e, f, g, h, i, j, k] 10 9 0 0 =
     sum_list (map2 (*) (map parseInt_digit [a, b, c, d, e, f, g, h, i])
       [10, 9, 8, 7, 6, 5, 4, 3, 2])"
  by (simp add: cpf_sum_loop_eq atLeastLessThanSuc numeral_eq_Suc)

lemma sum_first10:
  "cpf_sum_loop [a, b, c, d, e, f, g, h, i, j, k] 11 10 0 0 =
     sum_list (map2 (*) (map parseInt_digit [a, b, c, d, e, f, g, h, i, j])
       [11, 10, 9, 8, 7, 6, 5, 4, 3, 2])"
  by (simp add: cpf_sum_loop_eq atLeastLessThanSuc numeral_eq_Suc)

lemma isValidCPF_wrong_digits:
  assumes len: "length s = 11" and dig: "\<forall>c \<in> set s. is_digit c"
    and bad: "(parseInt_digit (s ! 9), parseInt_digit (s ! 10)) \<noteq>
                cpf_check_digits (map parseInt_digit (take 9 s))"
  shows "\<not> isValidCPF s"
proof -
  from len obtain a b c d e f g h i j k where s: "s = [a, b, c, d, e, f, g, h, i, j, k]"
    by (rule list11)
  have filt: "filter is_digit s = s" using dig by simp
  show ?thesis
  proof
    assume v: "isValidCPF s"
    then have e1: "check_digit_of (cpf_sum_loop s 10 9 0 0) = parseInt_digit (s ! 9)"
      and e2: "check_digit_of (cpf_sum_loop s 11 10 0 0) = parseInt_digit (s ! 10)"
      using len by (auto simp: isValidCPF_def filt Let_def split: if_splits)
    have "parseInt_digit j =
            weighted_mod11 (map parseInt_digit [a, b, c, d, e, f, g, h, i])
              [10, 9, 8, 7, 6, 5, 4, 3, 2]"
      using e1 unfolding s sum_first9
      by (simp add: weighted_mod11_def check_digit_of_def Let_def)
    moreover have "parseInt_digit k =
            weighted_mod11 (map parseInt_digit [a, b, c, d, e, f, g, h, i, j])
              [11, 10, 9, 8, 7, 6, 5, 4, 3, 2]"
      using e2 unfolding s sum_first10
      by (simp add: weighted_mod11_def check_digit_of_def Let_def)
    ultimately have "(parseInt_digit (s ! 9), parseInt_digit (s ! 10)) =
                       cpf_check_digits (map parseInt_digit (take 9 s))"
      unfolding s by (simp add: cpf_check_digits_def Let_def)
    with bad show False by simp
  qed
qed

text \<open>
  Claim C3. The validator accepts the masked string \<open>529.982.247-25\<close> and its unmasked form
  \<open>52998224725\<close>, rejects \<open>11111111111\<close> (all digits equal), and returns false on every
  string of eleven digits whose last two digits are not the check digits that the weighted
  mod-11 rule computes from the first nine.
\<close>

theorem isValidCPF_check_digits:
  "isValidCPF ''529.982.247-25'' \<and> isValidCPF ''52998224725'' \<and>
   \<not> isValidCPF ''11111111111'' \<and>
   (\<forall>s. length s = 11 \<and> (\<forall>c \<in> set s. is_digit c) \<and>
        (parseInt_digit (s ! 9), parseInt_digit (s ! 10)) \<noteq>
          cpf_check_digits (map parseInt_digit (take 9 s))
      \<longrightarrow> \<not> isValidCPF s)"
proof (intro conjI allI impI)
  show "isValidCPF ''529.982.247-25''" by code_simp
  show "isValidCPF ''52998224725''" by code_simp
  show "\<not> isValidCPF ''11111111111''" by code_simp
next
  fix s
  assume "length s = 11 \<and> (\<forall>c \<in> set s. is_digit c) \<and>
        (parseInt_digit (s ! 9), parseInt_digit (s ! 10)) \<noteq>
          cpf_check_digits (map parseInt_digit (take 9 s))"
  then show "\<not> isValidCPF s" by (simp add: isValidCPF_wrong_digits)
qed

theorem isValidCPF_check_digits_witness:
  "length ''52998224724'' = 11 \<and> list_all is_digit ''52998224724'' \<and>
   (parseInt_digit (''52998224724'' ! 9), parseInt_digit (''52998224724'' ! 10)) \<noteq>
      cpf_check_digits (map parseInt_digit (take 9 ''52998224724'')) \<and>
   \<not> isValidCPF ''52998224724''"
proof -
  have h: "length ''52998224724'' = 11 \<and> list_all is_digit ''52998224724'' \<and>
     (parseInt_digit (''52998224724'' ! 9), parseInt_digit (''52998224724'' ! 10)) \<noteq>
        cpf_check_digits (map parseInt_digit (take 9 ''52998224724''))"
    by code_simp
  from isValidCPF_check_digits have
    "length ''52998224724'' = 11 \<and> (\<forall>c \<in> set ''52998224724''. is_digit c) \<and>
       (parseInt_digit (''52998224724'' ! 9), parseInt_digit (''52998224724'' ! 10)) \<noteq>
          cpf_check_digits (map parseInt_digit (take 9 ''52998224724''))
     \<longrightarrow> \<not> isValidCPF ''52998224724''"
    by blast
  with h show ?thesis unfolding list_all_iff by blast
qed

section \<open>Properties of the deduplication cache\<close>

lemma cache_step_keeps_entry:
  assumes "cache cs k = Some e" "\<not> writes_key k ev" "\<not> reads_after (expirationTime e) ev"
  shows "cache (cache_step cs ev) k = Some e"
  using assms
  by (cases ev) (auto simp: cache_set_def cache_get_def cache_delete_def performCleanup_def
      cache_clear_def expiry_timer_fires_def Let_def split: option.splits)

lemma cache_run_keeps_entry:
  assumes "cache cs k = Some e" "list_all (\<lambda>ev. \<not> writes_key k ev) evs"
    "list_all (\<lambda>ev. \<not> reads_after (expirationTime e) ev) evs"
  shows "cache (cache_run cs evs) k = Some e"
  using assms
proof (induction evs arbitrary: cs)
  case Nil
  then show ?case by simp
next
  case (Cons ev evs)
  then show ?case by (simp add: cache_step_keeps_entry)
qed

lemma cache_step_entry_or_gone:
  assumes "cache cs k = None \<or> cache cs k = Some e" "\<not> inserts_key k ev"
  shows "cache (cache_step cs ev) k = None \<or> cache (cache_step cs ev) k = Some e"
  using assms
  by (cases ev) (auto simp: cache_set_def cache_get_def cache_delete_def performCleanup_def
      cache_clear_def expiry_timer_fires_def Let_def split: option.splits)

lemma cache_run_entry_or_gone:
  assumes "cache cs k = None \<or> cache cs k = Some e" "list_all (\<lambda>ev. \<not> inserts_key k ev) evs"
  shows "cache (cache_run cs evs) k = None \<or> cache (cache_run cs evs) k = Some e"
  using assms
proof (induction evs arbitrary: cs)
  case Nil
  then show ?case by simp
next
  case (Cons ev evs)
  from cache_step_entry_or_gone[OF Cons.prems(1)] Cons.prems(2)
  have "cache (cache_step cs ev) k = None \<or> cache (cache_step cs ev) k = Some e" by simp
  with Cons show ?case by simp
qed

text \<open>
  An entry whose key has no expiry timer due before \<open>D\<close> stays as it is while the clock is
  before \<open>D\<close> and no later than the entry's expiration, whatever timers run.
\<close>

lemma cache_step_keeps_fresh:
  assumes "cache cs k = Some e" "\<forall>due. (due, k) \<in> set (cache_timers cs) \<longrightarrow> D \<le> due"
    "\<not> calls_key k ev" "happens_by t ev" "t < D" "t \<le> expirationTime e"
  shows "cache (cache_step cs ev) k = Some e \<and>
         (\<forall>due. (due, k) \<in> set (cache_timers (cache_step cs ev)) \<longrightarrow> D \<le> due)"
proof (cases ev)
  case (TimerFires due key now)
  have sub: "x \<in> set (remove1 y xs) \<Longrightarrow> x \<in> set xs" for x y :: "int \<times> string" and xs
    using set_remove1_subset[of y xs] by auto
  from assms TimerFires show ?thesis
    by (auto simp: expiry_timer_fires_def cache_delete_def dest: sub)
qed (use assms in \<open>auto simp: cache_set_def cache_get_def cache_delete_def performCleanup_def
      cache_clear_def Let_def split: option.splits\<close>)

lemma cache_run_keeps_fresh:
  assumes "cache cs k = Some e" "\<forall>due. (due, k) \<in> set (cache_timers cs) \<longrightarrow> D \<le> due"
    "list_all (\<lambda>ev. \<not> calls_key k ev) evs" "list_all (happens_by t) evs"
    "t < D" "t \<le> expirationTime e"
  shows "cache (cache_run cs evs) k = Some e"
  using assms
proof (induction evs arbitrary: cs)
  case Nil
  then show ?case by simp
next
  case (Cons ev evs)
  from Cons.prems have "cache (cache_step cs ev) k = Some e \<and>
         (\<forall>due. (due, k) \<in> set (cache_timers (cache_step cs ev)) \<longrightarrow> D \<le> due)"
    by (intro cache_step_keeps_fresh[where t = t]) simp_all
  with Cons show ?case by simp
qed

lemma timer_pending_iff: "timer_pending k cs \<longleftrightarrow> (\<exists>due. (due, k) \<in> set (cache_timers cs))"
  by (force simp: timer_pending_def list_ex_iff)

lemma cache_step_no_timer:
  assumes "\<not> timer_pending k cs" "\<not> inserts_key k ev"
  shows "\<not> timer_pending k (cache_step cs ev)"
proof (cases ev)
  case (TimerFires due key now)
  have sub: "x \<in> set (remove1 y xs) \<Longrightarrow> x \<in> set xs" for x y :: "int \<times> string" and xs
    using set_remove1_subset[of y xs] by auto
  from assms TimerFires show ?thesis
    by (auto simp: timer_pending_iff expiry_timer_fires_def cache_delete_def dest: sub)
qed (use assms in \<open>auto simp: timer_pending_iff cache_set_def cache_get_def cache_delete_def
      performCleanup_def cache_clear_def Let_def split: option.splits\<close>)

lemma cache_run_no_timer:
  assumes "\<not> timer_pending k cs" "list_all (\<lambda>ev. \<not> inserts_key k ev) evs"
  shows "\<not> timer_pending k (cache_run cs evs)"
  using assms
proof (induction evs arbitrary: cs)
  case Nil
  then show ?case by simp
next
  case (Cons ev evs)
  then show ?case by (simp add: cache_step_no_timer)
qed

lemma markMessageProcessed_entry:
  "cache (markMessageProcessed cs s i (Some T) t0) (generateMessageKey s i) =
     Some \<lparr>entry_value = True, expirationTime = t0 + T, entry_createdAt = t0\<rparr>"
  by (simp add: markMessageProcessed_def cache_set_def)

lemma markMessageProcessed_timers:
  "cache_timers (markMessageProcessed cs s i (Some T) t0) =
     cache_timers cs @ [(t0 + timer_delay T, generateMessageKey s i)]"
  by (simp add: markMessageProcessed_def cache_set_def)

lemma isMessageProcessed_iff:
  "fst (isMessageProcessed cs s i t) \<longleftrightarrow>
     (\<exists>e. cache cs (generateMessageKey s i) = Some e \<and> t \<le> expirationTime e)"
  by (auto simp: isMessageProcessed_def cache_has_def cache_get_def split: option.splits)



lemma markMessageProcessed_fresh:
  assumes "\<not> timer_pending (generateMessageKey s i) cs"
    "list_all (\<lambda>ev. \<not> calls_key (generateMessageKey s i) ev) evs" "list_all (happens_by t) evs"
    "t \<le> t0 + T" "t < t0 + timer_delay T"
  shows "cache (cache_run (markMessageProcessed cs s i (Some T) t0) evs) (generateMessageKey s i) =
           Some \<lparr>entry_value = True, expirationTime = t0 + T, entry_createdAt = t0\<rparr>"
proof (rule cache_run_keeps_fresh[where t = t and D = "t0 + timer_delay T"])
  show "\<forall>due. (due, generateMessageKey s i) \<in> set (cache_timers (markMessageProcessed cs s i (Some T) t0))
          \<longrightarrow> t0 + timer_delay T \<le> due"
    using assms(1) by (auto simp: markMessageProcessed_timers timer_pending_iff)
qed (use assms in \<open>simp_all add: markMessageProcessed_entry\<close>)

text \<open>
  Claim C2, as amended. After \<open>markMessageProcessed(sender, eventId, T)\<close> at time \<open>t0\<close>, with no
  expiry timer of an earlier insertion of the key pending (from a new cache, none is while the
  key has not been inserted) and no \<open>set\<close> or \<open>delete\<close> of the key and no \<open>clear\<close> by a caller in
  between, \<open>isMessageProcessed(sender, eventId)\<close> is true at every time \<open>t \<le> t0 + T\<close> that is
  before the entry's own expiry callback is due, whatever callbacks, reads and sweeps happen
  up to \<open>t\<close>. The callback is due at \<open>t0 + T\<close> when \<open>1 \<le> T \<le> 2^31 - 1\<close> and at \<open>t0 + 1\<close> for any
  other \<open>T\<close>. At a later \<open>t \<le> t0 + T\<close> it is true as long as no expiry callback for the key has
  run and nothing has inserted, deleted or cleared it. It is false at every time \<open>t > t0 + T\<close>,
  unless the key has been inserted again. The default \<open>T\<close> is 60000 ms, and the sweep removes
  exactly the entries that are past their \<open>expirationTime\<close>.
\<close>

theorem markMessageProcessed_expiry:
  "(\<not> timer_pending (generateMessageKey s i) cs \<and>
    list_all (\<lambda>ev. \<not> calls_key (generateMessageKey s i) ev) evs \<and>
    list_all (happens_by t) evs \<and> t \<le> t0 + T \<and> t < t0 + timer_delay T \<longrightarrow>
      fst (isMessageProcessed (cache_run (markMessageProcessed cs s i (Some T) t0) evs) s i t)) \<and>
   (1 \<le> T \<and> T \<le> 2147483647 \<longrightarrow> timer_delay T = T) \<and>
   (\<not> (1 \<le> T \<and> T \<le> 2147483647) \<longrightarrow> timer_delay T = 1) \<and>
   (list_all (\<lambda>ev. \<not> writes_key (generateMessageKey s i) ev) evs \<and>
    list_all (\<lambda>ev. \<not> reads_after (t0 + T) ev) evs \<and> t \<le> t0 + T \<longrightarrow>
      fst (isMessageProcessed (cache_run (markMessageProcessed cs s i (Some T) t0) evs) s i t)) \<and>
   (list_all (\<lambda>ev. \<not> inserts_key (generateMessageKey s i) ev) evs \<and> t > t0 + T \<longrightarrow>
      \<not> fst (isMessageProcessed (cache_run (markMessageProcessed cs s i (Some T) t0) evs) s i t)) \<and>
   markMessageProcessed cs s i None t0 = markMessageProcessed cs s i (Some 60000) t0 \<and>
   (cache (performCleanup cs now) k = Some e \<longleftrightarrow>
      cache cs k = Some e \<and> \<not> now > expirationTime e) \<and>
   (list_all (\<lambda>ev. \<not> inserts_key k ev) evs0 \<longrightarrow>
      \<not> timer_pending k (cache_run CacheSystem_new evs0))"
proof (intro conjI impI)
  let ?k = "generateMessageKey s i"
  let ?e = "\<lparr>entry_value = True, expirationTime = t0 + T, entry_createdAt = t0\<rparr>"
  let ?cs = "cache_run (markMessageProcessed cs s i (Some T) t0) evs"
  {
    assume "\<not> timer_pending ?k cs \<and> list_all (\<lambda>ev. \<not> calls_key ?k ev) evs \<and>
      list_all (happens_by t) evs \<and> t \<le> t0 + T \<and> t < t0 + timer_delay T"
    then have h: "\<not> timer_pending ?k cs" "list_all (\<lambda>ev. \<not> calls_key ?k ev) evs"
      "list_all (happens_by t) evs" "t \<le> t0 + T" "t < t0 + timer_delay T"
      by simp_all
    then have "cache ?cs ?k = Some ?e"
      by (rule markMessageProcessed_fresh)
    with h(4) show "fst (isMessageProcessed ?cs s i t)"
      by (simp add: isMessageProcessed_iff)
  }
  {
    assume "list_all (\<lambda>ev. \<not> writes_key ?k ev) evs \<and>
      list_all (\<lambda>ev. \<not> reads_after (t0 + T) ev) evs \<and> t \<le> t0 + T"
    then have nw: "list_all (\<lambda>ev. \<not> writes_key ?k ev) evs"
      and nr: "list_all (\<lambda>ev. \<not> reads_after (expirationTime ?e) ev) evs" and t: "t \<le> t0 + T"
      by simp_all
    have "cache ?cs ?k = Some ?e"
      by (rule cache_run_keeps_entry[OF markMessageProcessed_entry nw nr])
    with t show "fst (isMessageProcessed ?cs s i t)"
      by (simp add: isMessageProcessed_iff)
  }
  {
    assume "list_all (\<lambda>ev. \<not> inserts_key ?k ev) evs \<and> t > t0 + T"
    then have ni: "list_all (\<lambda>ev. \<not> inserts_key ?k ev) evs" and t: "t > t0 + T"
      by simp_all
    have "cache ?cs ?k = None \<or> cache ?cs ?k = Some ?e"
      by (rule cache_run_entry_or_gone[OF _ ni]) (simp add: markMessageProcessed_entry)
    with t show "\<not> fst (isMessageProcessed ?cs s i t)"
      by (auto simp: isMessageProcessed_iff)
  }
next
  assume "1 \<le> T \<and> T \<le> 2147483647"
  then show "timer_delay T = T" by (simp add: timer_delay_def)
next
  assume "\<not> (1 \<le> T \<and> T \<le> 2147483647)"
  then show "timer_delay T = 1" by (auto simp: timer_delay_def)
next
  show "markMessageProcessed cs s i None t0 = markMessageProcessed cs s i (Some 60000) t0"
    by (simp add: markMessageProcessed_def defaultTTL_def)
next
  show "cache (performCleanup cs now) k = Some e \<longleftrightarrow>
          cache cs k = Some e \<and> \<not> now > expirationTime e"
    by (auto simp: performCleanup_def split: option.splits)
next
  assume "list_all (\<lambda>ev. \<not> inserts_key k ev) evs0"
  then show "\<not> timer_pending k (cache_run CacheSystem_new evs0)"
    by (intro cache_run_no_timer) (simp_all add: timer_pending_def CacheSystem_new_def)
qed

theorem markMessageProcessed_expiry_witness:
  "\<not> timer_pending (generateMessageKey ''5511999999999@c.us'' ''A1'') CacheSystem_new \<and>
   list_all (\<lambda>ev. \<not> calls_key (generateMessageKey ''5511999999999@c.us'' ''A1'') ev) sample_events \<and>
   list_all (happens_by 60999) sample_events \<and>
   (60999 :: int) \<le> 1000 + 60000 \<and> 60999 < 1000 + timer_delay 60000 \<and>
   fst (isMessageProcessed
          (cache_run (markMessageProcessed CacheSystem_new ''5511999999999@c.us'' ''A1'' (Some 60000) 1000)
             sample_events) ''5511999999999@c.us'' ''A1'' 60999) \<and>
   list_all (\<lambda>ev. \<not> writes_key (generateMessageKey ''5511999999999@c.us'' ''A1'') ev) late_events \<and>
   list_all (\<lambda>ev. \<not> reads_after (1000 + 60000) ev) late_events \<and>
   fst (isMessageProcessed
          (cache_run (markMessageProcessed CacheSystem_new ''5511999999999@c.us'' ''A1'' (Some 60000) 1000)
             late_events) ''5511999999999@c.us'' ''A1'' 61000) \<and>
   list_all (\<lambda>ev. \<not> inserts_key (generateMessageKey ''5511999999999@c.us'' ''A1'') ev) late_events \<and>
   \<not> fst (isMessageProcessed
          (cache_run (markMessageProcessed CacheSystem_new ''5511999999999@c.us'' ''A1'' (Some 60000) 1000)
             late_events) ''5511999999999@c.us'' ''A1'' 61001)"
proof -
  let ?k = "generateMessageKey ''5511999999999@c.us'' ''A1''"
  have p: "\<not> timer_pending ?k CacheSystem_new"
    by (simp add: timer_pending_def CacheSystem_new_def)
  have c: "list_all (\<lambda>ev. \<not> calls_key ?k ev) sample_events"
    by (simp add: sample_events_def generateMessageKey_def)
  have h: "list_all (happens_by 60999) sample_events"
    by (simp add: sample_events_def)
  have d: "(60999 :: int) \<le> 1000 + 60000 \<and> 60999 < 1000 + timer_delay 60000"
    by (simp add: timer_delay_def)
  have w: "list_all (\<lambda>ev. \<not> writes_key ?k ev) late_events"
    by (simp add: late_events_def generateMessageKey_def)
  have r: "list_all (\<lambda>ev. \<not> reads_after (1000 + 60000) ev) late_events"
    by (simp add: late_events_def)
  have n: "list_all (\<lambda>ev. \<not> inserts_key ?k ev) late_events"
    by (simp add: late_events_def generateMessageKey_def)
  have a: "fst (isMessageProcessed
          (cache_run (markMessageProcessed CacheSystem_new ''5511999999999@c.us'' ''A1'' (Some 60000) 1000)
             sample_events) ''5511999999999@c.us'' ''A1'' 60999)"
    using markMessageProcessed_expiry[where s = "''5511999999999@c.us''" and i = "''A1''"
        and evs = sample_events and t = 60999 and ?t0.0 = 1000 and T = 60000
        and cs = CacheSystem_new] p c h d
    by blast
  have b: "fst (isMessageProcessed
          (cache_run (markMessageProcessed CacheSystem_new ''5511999999999@c.us'' ''A1'' (Some 60000) 1000)
             late_events) ''5511999999999@c.us'' ''A1'' 61000)"
    using markMessageProcessed_expiry[where s = "''5511999999999@c.us''" and i = "''A1''"
        and evs = late_events and t = 61000 and ?t0.0 = 1000 and T = 60000
        and cs = CacheSystem_new] w r
    by simp
  have e: "\<not> fst (isMessageProcessed
          (cache_run (markMessageProcessed CacheSystem_new ''5511999999999@c.us'' ''A1'' (Some 60000) 1000)
             late_events) ''5511999999999@c.us'' ''A1'' 61001)"
    using markMessageProcessed_expiry[where s = "''5511999999999@c.us''" and i = "''A1''"
        and evs = late_events and t = 61001 and ?t0.0 = 1000 and T = 60000
        and cs = CacheSystem_new] n
    by simp
  from p c h d w r n a b e show ?thesis by blast
qed

text \<open>
  The claim as written fails in two ways. With \<open>T = 3000000000\<close>, above \<open>2^31 - 1\<close>, the expiry
  timer is due one millisecond after the insertion, and once its callback has run the query at
  \<open>t0 + 2\<close> is false. With the default \<open>T\<close>, the callback is due at \<open>t0 + T\<close>, and once it has run
  the query at \<open>t0 + T\<close> is false. In both the key was never inserted before and nothing called
  \<open>clear\<close> or \<open>delete\<close>.
\<close>

theorem markMessageProcessed_expiry_counterexample:
  "(1000 :: int) \<le> 1002 \<and> (1002 :: int) \<le> 1000 + 3000000000 \<and>
   \<not> fst (isMessageProcessed
          (cache_run
             (markMessageProcessed CacheSystem_new ''5511999999999@c.us'' ''A1'' (Some 3000000000) 1000)
             [TimerFires 1001 (generateMessageKey ''5511999999999@c.us'' ''A1'') 1001])
          ''5511999999999@c.us'' ''A1'' 1002) \<and>
   (1000 :: int) \<le> 61000 \<and> (61000 :: int) \<le> 1000 + 60000 \<and>
   \<not> fst (isMessageProcessed
          (cache_run
             (markMessageProcessed CacheSystem_new ''5511999999999@c.us'' ''A1'' (Some 60000) 1000)
             [TimerFires 61000 (generateMessageKey ''5511999999999@c.us'' ''A1'') 61000])
          ''5511999999999@c.us'' ''A1'' 61000)"
  by (simp add: isMessageProcessed_iff markMessageProcessed_def cache_set_def CacheSystem_new_def
      expiry_timer_fires_def cache_delete_def timer_delay_def)
section \<open>The router after the duplicate check\<close>

lemma processMessage_new:
  assumes c: "isMessageProcessed (cacheSystem w) (msg_from m) (msg_id m) now = (False, cs)"
  shows "processMessage flows w m now =
           (fst (accepted flows (services w) m now),
            \<lparr>cacheSystem = markMessageProcessed cs (msg_from m) (msg_id m) None now,
             services = snd (accepted flows (services w) m now)\<rparr>)"
  by (simp add: processMessage_def accepted_def dispatch_def extractMessageInfo_def Let_def c
        split: prod.splits option.splits handler_result.splits bool.splits)




lemma map_of_put_property: "map_of (put_property ms k v) = (map_of ms)(k \<mapsto> v)"
  by (induction ms) (auto simp: fun_eq_iff)

lemma fst_getUserSession: "fst (getUserSession sm a now) = current_session sm a now"
  by (simp add: getUserSession_def current_session_def session_of_def new_session_def Let_def
      split: option.splits)

lemma session_of_getUserSession:
  "session_of (snd (getUserSession sm a now)) = (session_of sm)(a \<mapsto> current_session sm a now)"
  by (auto simp: getUserSession_def current_session_def session_of_def new_session_def Let_def
      map_of_put_property fun_eq_iff map_add_def split: option.splits)

lemma session_of_updateUserSession:
  "session_of (updateUserSession sm a u now) =
     (session_of sm)(a \<mapsto> updated_session (current_session sm a now) u now)"
proof -
  obtain s sm1 where g: "getUserSession sm a now = (s, sm1)"
    by (cases "getUserSession sm a now")
  from g have s: "s = current_session sm a now"
    using fst_getUserSession[of sm a now] by simp
  from g have m: "session_of sm1 = (session_of sm)(a \<mapsto> current_session sm a now)"
    using session_of_getUserSession[of sm a now] by simp
  have "session_of (updateUserSession sm a u now) = (session_of sm1)(a \<mapsto> updated_session s u now)"
    by (auto simp: updateUserSession_def g Let_def session_of_def map_of_put_property
        updated_session_def fun_eq_iff)
  with s m show ?thesis by simp
qed




section \<open>Deduplication in the router\<close>





section \<open>The disabled bot\<close>

text \<open>
  Claim C4. For an event that is not a duplicate and whose body is not a menu command, when
  \<open>chatbot_is_on\<close> is false: \<open>processMessage\<close> returns \<open>false\<close>, sends nothing (the history of
  outbound sends and the queue of deferred sends are unchanged), leaves the session map and
  \<open>total_users\<close> unchanged, and has incremented \<open>total_messages\<close> by one, whatever the flows.
\<close>

theorem processMessage_disabled:
  "\<not> fst (isMessageProcessed (cacheSystem w) (msg_from m) (msg_id m) now) \<and>
   chatbot_is_on (state (stateManager (services w))) = False \<and>
   \<not> isMenuCommand (msg_body m) \<longrightarrow>
     fst (processMessage flows w m now) = False \<and>
     outbound_sends (whatsappService (services (snd (processMessage flows w m now)))) =
       outbound_sends (whatsappService (services w)) \<and>
     messageQueue (whatsappService (services (snd (processMessage flows w m now)))) =
       messageQueue (whatsappService (services w)) \<and>
     sessions (state (stateManager (services (snd (processMessage flows w m now))))) =
       sessions (state (stateManager (services w))) \<and>
     total_messages (stats (state (stateManager (services (snd (processMessage flows w m now)))))) =
       total_messages (stats (state (stateManager (services w)))) + 1 \<and>
     total_users (stats (state (stateManager (services (snd (processMessage flows w m now)))))) =
       total_users (stats (state (stateManager (services w)))) \<and>
     chatbot_is_on (state (stateManager (services (snd (processMessage flows w m now))))) = False"
proof
  assume h: "\<not> fst (isMessageProcessed (cacheSystem w) (msg_from m) (msg_id m) now) \<and>
   chatbot_is_on (state (stateManager (services w))) = False \<and>
   \<not> isMenuCommand (msg_body m)"
  then obtain cs where c: "isMessageProcessed (cacheSystem w) (msg_from m) (msg_id m) now = (False, cs)"
    by (cases "isMessageProcessed (cacheSystem w) (msg_from m) (msg_id m) now") auto
  from h have acc: "accepted flows (services w) m now =
      (False, \<lparr>stateManager = incrementMessageCount (stateManager (services w)),
               whatsappService = snd (markAsRead (whatsappService (services w)) (msg_id m))\<rparr>)"
    by (simp add: accepted_def Let_def isBotActive_def incrementMessageCount_def)
  have sends: "outbound_sends (snd (markAsRead ws i)) = outbound_sends ws" for ws i
    by (simp add: markAsRead_def call_client_def outbound_sends_def)
  have queue: "messageQueue (snd (markAsRead ws i)) = messageQueue ws" for ws i
    by (simp add: markAsRead_def call_client_def)
  show "fst (processMessage flows w m now) = False \<and>
     outbound_sends (whatsappService (services (snd (processMessage flows w m now)))) =
       outbound_sends (whatsappService (services w)) \<and>
     messageQueue (whatsappService (services (snd (processMessage flows w m now)))) =
       messageQueue (whatsappService (services w)) \<and>
     sessions (state (stateManager (services (snd (processMessage flows w m now))))) =
       sessions (state (stateManager (services w))) \<and>
     total_messages (stats (state (stateManager (services (snd (processMessage flows w m now)))))) =
       total_messages (stats (state (stateManager (services w)))) + 1 \<and>
     total_users (stats (state (stateManager (services (snd (processMessage flows w m now)))))) =
       total_users (stats (state (stateManager (services w)))) \<and>
     chatbot_is_on (state (stateManager (services (snd (processMessage flows w m now))))) = False"
    using h by (simp add: processMessage_new[OF c] acc sends queue incrementMessageCount_def)
qed


theorem processMessage_disabled_witness:
  "\<not> fst (isMessageProcessed (cacheSystem (sample_world ((default_state 0)\<lparr>chatbot_is_on := False\<rparr>)))
             (msg_from (sample_message ''quero um seguro'')) (msg_id (sample_message ''quero um seguro'')) 1000) \<and>
   chatbot_is_on (state (stateManager (services
       (sample_world ((default_state 0)\<lparr>chatbot_is_on := False\<rparr>))))) = False \<and>
   \<not> isMenuCommand (msg_body (sample_message ''quero um seguro'')) \<and>
   outbound_sends (whatsappService (services (snd (processMessage no_flows
       (sample_world ((default_state 0)\<lparr>chatbot_is_on := False\<rparr>))
       (sample_message ''quero um seguro'') 1000)))) = [] \<and>
   total_messages (stats (state (stateManager (services (snd (processMessage no_flows
       (sample_world ((default_state 0)\<lparr>chatbot_is_on := False\<rparr>))
       (sample_message ''quero um seguro'') 1000)))))) = 1"
proof -
  have new: "\<not> fst (isMessageProcessed (cacheSystem (sample_world ((default_state 0)\<lparr>chatbot_is_on := False\<rparr>)))
             (msg_from (sample_message ''quero um seguro'')) (msg_id (sample_message ''quero um seguro'')) 1000)"
    by (simp add: isMessageProcessed_iff sample_world_def CacheSystem_new_def)
  have off: "chatbot_is_on (state (stateManager (services
       (sample_world ((default_state 0)\<lparr>chatbot_is_on := False\<rparr>))))) = False"
    by (simp add: sample_world_def sample_manager_def)
  have nomenu: "\<not> isMenuCommand (msg_body (sample_message ''quero um seguro''))"
    by code_simp
  have before: "outbound_sends (whatsappService (services
       (sample_world ((default_state 0)\<lparr>chatbot_is_on := False\<rparr>)))) = []"
    "total_messages (stats (state (stateManager (services
       (sample_world ((default_state 0)\<lparr>chatbot_is_on := False\<rparr>)))))) = 0"
    by (simp_all add: sample_world_def sample_manager_def sample_service_def outbound_sends_def
        default_state_def)
  from processMessage_disabled[where w = "sample_world ((default_state 0)\<lparr>chatbot_is_on := False\<rparr>)"
      and m = "sample_message ''quero um seguro''" and now = 1000 and flows = no_flows]
    new off nomenu before
  show ?thesis by simp
qed

section \<open>Transport and welcome lemmas\<close>











section \<open>Greeting keywords are matched as substrings\<close>




section \<open>Human handoff\<close>





lemma session_of_disableBot: "session_of (disableBot sm m now) = session_of sm"
  by (simp add: session_of_def disableBot_def Let_def fun_eq_iff)




section \<open>Back navigation from the email step\<close>

text \<open>
  The step handler itself does what the prompts promise: on a back request it returns the
  session to \<open>coleta_nome\<close> and leaves the collected data as they are.
\<close>

lemma handleColetaEmail_back:
  assumes "js_includes input ''voltar'' \<or> js_includes (normalizeText input) ''voltar'' \<or>
           isRequestingBack (normalizeText input)"
  shows "session_of (stateManager (snd (handleColetaEmail sender input s now a))) sender =
           Some (updated_session (current_session (stateManager a) sender now)
                   \<lparr>upd_currentFlow = None, upd_currentStep = Some ''coleta_nome'', upd_data = None\<rparr> now)"
  using assms
  by (simp add: handleColetaEmail_def Let_def solicitarNome_def session_of_updateUserSession)

text \<open>
  Claim C6 at its failing input. The session is in the quote intake at \<open>coleta_email\<close> with
  the name collected; the event's body is \<open>voltar\<close>. \<open>isMenuCommand\<close> matches \<open>voltar\<close>, so the
  menu branch of the global commands takes the event before any flow handler: the session
  ends in \<open>welcome_response\<close>/\<open>aguardando_escolha\<close> with empty data, whatever the registry.
  The handler \<open>handleColetaEmail\<close> on the same input would have gone to \<open>coleta_nome\<close> and kept
  the name, and the router does so for the back keyword \<open>anterior\<close>.
\<close>

theorem voltar_resets_quote_session:
  "isMenuCommand (normalizeText ''voltar'') \<and>
   map_option currentStep
     (session_of (stateManager (services (sample_world (quote_state ''coleta_email''))))
        ''5511999999999@c.us'') = Some ''coleta_email'' \<and>
   map_option data
     (session_of (stateManager (services (sample_world (quote_state ''coleta_email''))))
        ''5511999999999@c.us'') = Some (JObj [(''cotacao'', JObj [(''nome'', JStr ''Maria Silva'')])]) \<and>
   map_option currentFlow
     (session_of (stateManager (services (snd (processMessage flows
         (sample_world (quote_state ''coleta_email'')) (sample_message ''voltar'') 1000))))
        ''5511999999999@c.us'') = Some ''welcome_response'' \<and>
   map_option currentStep
     (session_of (stateManager (services (snd (processMessage flows
         (sample_world (quote_state ''coleta_email'')) (sample_message ''voltar'') 1000))))
        ''5511999999999@c.us'') = Some ''aguardando_escolha'' \<and>
   map_option data
     (session_of (stateManager (services (snd (processMessage flows
         (sample_world (quote_state ''coleta_email'')) (sample_message ''voltar'') 1000))))
        ''5511999999999@c.us'') = Some (JObj []) \<and>
   map_option currentStep
     (session_of (stateManager (snd (handleColetaEmail ''5511999999999@c.us'' ''voltar''
         (quote_session ''coleta_email'') 1000 (services (sample_world (quote_state ''coleta_email''))))))
        ''5511999999999@c.us'') = Some ''coleta_nome'' \<and>
   map_option data
     (session_of (stateManager (snd (handleColetaEmail ''5511999999999@c.us'' ''voltar''
         (quote_session ''coleta_email'') 1000 (services (sample_world (quote_state ''coleta_email''))))))
        ''5511999999999@c.us'') = Some (JObj [(''cotacao'', JObj [(''nome'', JStr ''Maria Silva'')])])"
  by (intro conjI; code_simp)

text \<open>The same event with the back keyword \<open>anterior\<close>, through the router and the registry.\<close>

theorem anterior_goes_back:
  "map_option currentFlow
     (session_of (stateManager (services (snd (processMessage (initializeFlows other_steps other_flows)
         (sample_world (quote_state ''coleta_email'')) (sample_message ''anterior'') 1000))))
        ''5511999999999@c.us'') = Some ''cotacao'' \<and>
   map_option currentStep
     (session_of (stateManager (services (snd (processMessage (initializeFlows other_steps other_flows)
         (sample_world (quote_state ''coleta_email'')) (sample_message ''anterior'') 1000))))
        ''5511999999999@c.us'') = Some ''coleta_nome'' \<and>
   map_option data
     (session_of (stateManager (services (snd (processMessage (initializeFlows other_steps other_flows)
         (sample_world (quote_state ''coleta_email'')) (sample_message ''anterior'') 1000))))
        ''5511999999999@c.us'') = Some (JObj [(''cotacao'', JObj [(''nome'', JStr ''Maria Silva'')])])"
  by (intro conjI; code_simp)

section \<open>Re-enable timers are never cancelled\<close>

lemma reenable_timers_saveState: "reenable_timers (saveState sm) = reenable_timers sm"
  by (simp add: saveState_def)

lemma state_saveState: "state (saveState sm) = state sm"
  by (simp add: saveState_def)

lemma toggle_step_keeps_timer:
  assumes "d \<in> set (reenable_timers sm)" "\<not> fires d ev"
  shows "d \<in> set (reenable_timers (toggle_step sm ev))"
  using assms
  by (cases ev) (auto simp: enableBot_def disableBot_def reenable_timer_fires_def Let_def
      reenable_timers_saveState)

lemma toggle_run_keeps_timer:
  assumes "d \<in> set (reenable_timers sm)" "list_all (\<lambda>ev. \<not> fires d ev) evs"
  shows "d \<in> set (reenable_timers (toggle_run sm evs))"
  using assms
proof (induction evs arbitrary: sm)
  case Nil
  then show ?case by simp
next
  case (Cons ev evs)
  then show ?case by (simp add: toggle_step_keeps_timer)
qed

lemma reenable_timer_fires_on:
  assumes "d \<in> set (reenable_timers sm)" "d \<le> now"
  shows "chatbot_is_on (state (reenable_timer_fires sm d now)) = True"
  using assms by (simp add: reenable_timer_fires_def state_saveState)

lemma timer_delay_le: "1 \<le> ms \<Longrightarrow> timer_delay ms \<le> ms"
  by (simp add: timer_delay_def)

text \<open>
  Claim C10. \<open>enableBot\<close> leaves the pending re-enable timers as they are and \<open>disableBot\<close> only
  adds one. The callback of a pending timer sets \<open>chatbot_is_on\<close> to true whatever its value.
  So the timer of \<open>disableBot(m1)\<close> at \<open>t0\<close> is still pending after any calls of \<open>enableBot\<close> and
  \<open>disableBot\<close> (and callbacks of other timers), and sets the toggle to true when it runs. In
  particular, after \<open>disableBot(m2)\<close> at \<open>t1\<close> within the first window, with \<open>m2 > m1\<close>, the bot is
  off, and is on again once the first timer has run at the first deadline \<open>t0 + m1\<close> minutes,
  which is before the end \<open>t1 + m2\<close> minutes of the later window.
\<close>

theorem disableBot_timer_not_cancelled:
  "reenable_timers (enableBot sm) = reenable_timers sm \<and>
   reenable_timers (disableBot sm (Some m2) t1) =
     reenable_timers sm @ [t1 + timer_delay (m2 * 60 * 1000)] \<and>
   (due \<in> set (reenable_timers sm) \<and> due \<le> now \<longrightarrow>
      chatbot_is_on (state (reenable_timer_fires sm due now)) = True) \<and>
   (list_all (\<lambda>ev. \<not> fires (t0 + timer_delay (m1 * 60 * 1000)) ev) evs \<and>
    t0 + timer_delay (m1 * 60 * 1000) \<le> now \<longrightarrow>
      chatbot_is_on (state (reenable_timer_fires
         (toggle_run (disableBot sm (Some m1) t0) evs) (t0 + timer_delay (m1 * 60 * 1000)) now)) = True) \<and>
   (1 \<le> m1 \<and> m1 < m2 \<and> t0 \<le> t1 \<and> t1 < t0 + m1 * 60 * 1000 \<longrightarrow>
      chatbot_is_on (state (disableBot (disableBot sm (Some m1) t0) (Some m2) t1)) = False \<and>
      chatbot_is_on (state (reenable_timer_fires
         (disableBot (disableBot sm (Some m1) t0) (Some m2) t1)
         (t0 + timer_delay (m1 * 60 * 1000)) (t0 + m1 * 60 * 1000))) = True \<and>
      t0 + m1 * 60 * 1000 < t1 + m2 * 60 * 1000)"
proof (intro conjI impI)
  show "reenable_timers (enableBot sm) = reenable_timers sm"
    by (simp add: enableBot_def)
  show "reenable_timers (disableBot sm (Some m2) t1) =
     reenable_timers sm @ [t1 + timer_delay (m2 * 60 * 1000)]"
    by (simp add: disableBot_def)
next
  assume "due \<in> set (reenable_timers sm) \<and> due \<le> now"
  then show "chatbot_is_on (state (reenable_timer_fires sm due now)) = True"
    by (simp add: reenable_timer_fires_on)
next
  let ?d = "t0 + timer_delay (m1 * 60 * 1000)"
  assume h: "list_all (\<lambda>ev. \<not> fires ?d ev) evs \<and> ?d \<le> now"
  have "?d \<in> set (reenable_timers (disableBot sm (Some m1) t0))"
    by (simp add: disableBot_def)
  with h have "?d \<in> set (reenable_timers (toggle_run (disableBot sm (Some m1) t0) evs))"
    by (simp add: toggle_run_keeps_timer)
  with h show "chatbot_is_on (state (reenable_timer_fires
         (toggle_run (disableBot sm (Some m1) t0) evs) ?d now)) = True"
    by (simp add: reenable_timer_fires_on)
next
  let ?d = "t0 + timer_delay (m1 * 60 * 1000)"
  assume h: "1 \<le> m1 \<and> m1 < m2 \<and> t0 \<le> t1 \<and> t1 < t0 + m1 * 60 * 1000"
  show "chatbot_is_on (state (disableBot (disableBot sm (Some m1) t0) (Some m2) t1)) = False"
    by (simp add: disableBot_def)
  have "?d \<in> set (reenable_timers (disableBot (disableBot sm (Some m1) t0) (Some m2) t1))"
    by (simp add: disableBot_def)
  moreover from h have "?d \<le> t0 + m1 * 60 * 1000"
    using timer_delay_le[of "m1 * 60 * 1000"] by simp
  ultimately show "chatbot_is_on (state (reenable_timer_fires
         (disableBot (disableBot sm (Some m1) t0) (Some m2) t1) ?d (t0 + m1 * 60 * 1000))) = True"
    by (rule reenable_timer_fires_on)
  from h show "t0 + m1 * 60 * 1000 < t1 + m2 * 60 * 1000" by simp
qed

theorem disableBot_timer_not_cancelled_witness:
  "(1 :: int) \<le> 5 \<and> (5 :: int) < 60 \<and> (0 :: int) \<le> 120000 \<and> (120000 :: int) < 0 + 5 * 60 * 1000 \<and>
   list_all (\<lambda>ev. \<not> fires (0 + timer_delay (5 * 60 * 1000)) ev) [CallEnable, CallDisable (Some 60) 120000] \<and>
   chatbot_is_on (state (disableBot (disableBot (sample_manager (default_state 0)) (Some 5) 0)
                            (Some 60) 120000)) = False \<and>
   chatbot_is_on (state (reenable_timer_fires
      (disableBot (disableBot (sample_manager (default_state 0)) (Some 5) 0) (Some 60) 120000)
      (0 + timer_delay (5 * 60 * 1000)) (0 + 5 * 60 * 1000))) = True \<and>
   chatbot_is_on (state (reenable_timer_fires
      (toggle_run (disableBot (sample_manager (default_state 0)) (Some 5) 0)
         [CallEnable, CallDisable (Some 60) 120000])
      (0 + timer_delay (5 * 60 * 1000)) 300000)) = True \<and>
   (0 :: int) + 5 * 60 * 1000 < 120000 + 60 * 60 * 1000"
proof -
  have h1: "(1 :: int) \<le> 5 \<and> (5 :: int) < 60 \<and> (0 :: int) \<le> 120000 \<and> (120000 :: int) < 0 + 5 * 60 * 1000"
    by simp
  have h2: "list_all (\<lambda>ev. \<not> fires (0 + timer_delay (5 * 60 * 1000)) ev)
              [CallEnable, CallDisable (Some 60) 120000]"
    by simp
  have h3: "0 + timer_delay (5 * 60 * 1000) \<le> 300000"
    by (simp add: timer_delay_def)
  note th = disableBot_timer_not_cancelled[where ?m1.0 = 5 and ?m2.0 = 60 and ?t0.0 = 0
      and ?t1.0 = 120000 and sm = "sample_manager (default_state 0)"
      and evs = "[CallEnable, CallDisable (Some 60) 120000]" and now = 300000]
  from th h1 have a: "chatbot_is_on (state (disableBot (disableBot (sample_manager (default_state 0)) (Some 5) 0)
                            (Some 60) 120000)) = False"
    and b: "chatbot_is_on (state (reenable_timer_fires
      (disableBot (disableBot (sample_manager (default_state 0)) (Some 5) 0) (Some 60) 120000)
      (0 + timer_delay (5 * 60 * 1000)) (0 + 5 * 60 * 1000))) = True"
    and c: "(0 :: int) + 5 * 60 * 1000 < 120000 + 60 * 60 * 1000"
    by blast+
  from th h2 h3 have d: "chatbot_is_on (state (reenable_timer_fires
      (toggle_run (disableBot (sample_manager (default_state 0)) (Some 5) 0)
         [CallEnable, CallDisable (Some 60) 120000])
      (0 + timer_delay (5 * 60 * 1000)) 300000)) = True"
    by blast
  from h1 h2 a b c d show ?thesis by blast
qed

section \<open>Loading the state file\<close>



section \<open>Saving and loading the store\<close>

subsection \<open>Parsing what \<open>JSON.stringify\<close> wrote\<close>

lemma skip_ws_append: "list_all is_ws w \<Longrightarrow> skip_ws (w @ s) = skip_ws s"
  by (induction w) (auto simp: skip_ws_def)

lemma skip_ws_nonws: "\<not> is_ws c \<Longrightarrow> skip_ws (c # s) = c # s"
  by (simp add: skip_ws_def)

lemma parse_value_skip: "list_all is_ws w \<Longrightarrow> parse_value fuel (w @ s) = parse_value fuel s"
  by (cases fuel) (simp_all add: skip_ws_append)

lemma parse_elements_skip:
  "list_all is_ws w \<Longrightarrow> parse_elements fuel (w @ s) acc = parse_elements fuel s acc"
  by (cases fuel) (simp_all add: parse_value_skip)

lemma parse_members_skip:
  "list_all is_ws w \<Longrightarrow> parse_members fuel (w @ s) acc = parse_members fuel s acc"
  by (cases fuel) (simp_all add: skip_ws_append)


subsection \<open>Strings\<close>

lemma hex_char_inverse: "d < 16 \<Longrightarrow> is_hex (hex_char d) \<and> hex_val (hex_char d) = d"
proof -
  assume "d < 16"
  then have "d = 0 \<or> d = 1 \<or> d = 2 \<or> d = 3 \<or> d = 4 \<or> d = 5 \<or> d = 6 \<or> d = 7 \<or> d = 8 \<or>
             d = 9 \<or> d = 10 \<or> d = 11 \<or> d = 12 \<or> d = 13 \<or> d = 14 \<or> d = 15" by arith
  then show ?thesis
    by (auto simp: hex_char_def is_hex_def hex_val_def is_digit_def)
qed

lemma parse_string_body_quote_char:
  assumes "parse_string_body s = Inr (str, rest)"
  shows "parse_string_body (quote_char c @ s) = Inr (c # str, rest)"
proof -
  consider (b) "c = CHR 0x08" | (t) "c = CHR 0x09" | (n) "c = CHR 0x0A" | (f) "c = CHR 0x0C"
    | (r) "c = CHR 0x0D" | (q) "c = CHR 0x22" | (bs) "c = CHR 0x5C"
    | (ctl) "c \<notin> {CHR 0x08, CHR 0x09, CHR 0x0A, CHR 0x0C, CHR 0x0D, CHR 0x22, CHR 0x5C}"
        "(of_char c :: nat) < 32"
    | (plain) "c \<notin> {CHR 0x08, CHR 0x09, CHR 0x0A, CHR 0x0C, CHR 0x0D, CHR 0x22, CHR 0x5C}"
        "\<not> (of_char c :: nat) < 32"
    by blast
  then show ?thesis
  proof cases
    case ctl
    let ?n = "of_char c :: nat"
    from ctl have d: "?n div 16 < 16" "?n mod 16 < 16" by simp_all
    have v: "(0 * 16 + 0) * 16 * 16 + hex_val (hex_char (?n div 16)) * 16 + hex_val (hex_char (?n mod 16)) = ?n"
      using hex_char_inverse[OF d(1)] hex_char_inverse[OF d(2)] by simp
    have z: "is_hex CHR ''0''" "hex_val CHR ''0'' = 0"
      by (simp_all add: is_hex_def hex_val_def is_digit_def)
    have q: "quote_char c = [CHR 0x5C, CHR ''u'', CHR ''0'', CHR ''0'', hex_char (?n div 16), hex_char (?n mod 16)]"
      using ctl by (simp add: quote_char_def)
    have lt: "?n < 256" using ctl by simp
    show ?thesis
      using hex_char_inverse[OF d(1)] hex_char_inverse[OF d(2)] lt
      by (simp add: q assms z Let_def)
  next
    case plain
    then show ?thesis by (simp add: quote_char_def assms)
  qed (simp_all add: quote_char_def assms unescape_def)
qed

lemma parse_string_body_quoted:
  "parse_string_body (concat (map quote_char s) @ CHR 0x22 # rest) = Inr (s, rest)"
  by (induction s) (simp_all add: parse_string_body_quote_char)

lemma parse_string_body_quote_string:
  "parse_string_body (tl (quote_string s) @ rest) = Inr (s, rest)"
  by (simp add: quote_string_def parse_string_body_quoted)

subsection \<open>Numbers\<close>

lemma digit_char_props:
  "d < 10 \<Longrightarrow> is_digit (digit_char d) \<and> parseInt_digit (digit_char d) = d"
proof -
  assume "d < 10"
  then have "d = 0 \<or> d = 1 \<or> d = 2 \<or> d = 3 \<or> d = 4 \<or> d = 5 \<or> d = 6 \<or> d = 7 \<or> d = 8 \<or> d = 9"
    by arith
  then show ?thesis by (auto simp: digit_char_def is_digit_def parseInt_digit_def)
qed

lemma digit_char_zero: "d < 10 \<Longrightarrow> digit_char d = CHR ''0'' \<longleftrightarrow> d = 0"
proof -
  assume "d < 10"
  then have "d = 0 \<or> d = 1 \<or> d = 2 \<or> d = 3 \<or> d = 4 \<or> d = 5 \<or> d = 6 \<or> d = 7 \<or> d = 8 \<or> d = 9"
    by arith
  then show ?thesis by (auto simp: digit_char_def char_of_eq_iff take_bit_eq_mod)
qed

lemma digits_value_snoc: "digits_value (ds @ [c]) = 10 * digits_value ds + parseInt_digit c"
  by (simp add: digits_value_def)

lemma nat_to_string_props:
  "list_all is_digit (nat_to_string n) \<and> nat_to_string n \<noteq> [] \<and>
   digits_value (nat_to_string n) = n \<and> (hd (nat_to_string n) = CHR ''0'' \<longleftrightarrow> n = 0)"
proof (induction n rule: nat_to_string.induct)
  case (1 n)
  show ?case
  proof (cases "n < 10")
    case True
    then show ?thesis
      using digit_char_props[of n] digit_char_zero[of n]
      by (subst (1 2 3 4) nat_to_string.simps) (simp add: digits_value_def)
  next
    case False
    with 1 have ih: "list_all is_digit (nat_to_string (n div 10))" "nat_to_string (n div 10) \<noteq> []"
      "digits_value (nat_to_string (n div 10)) = n div 10"
      "hd (nat_to_string (n div 10)) = CHR ''0'' \<longleftrightarrow> n div 10 = 0"
      by simp_all
    have m: "n mod 10 < 10" by simp
    from False have nz: "n div 10 \<noteq> 0" by auto
    have e: "nat_to_string n = nat_to_string (n div 10) @ [digit_char (n mod 10)]"
      using False by (subst nat_to_string.simps) simp
    show ?thesis
      using ih digit_char_props[OF m] nz False
      by (simp add: e digits_value_snoc)
  qed
qed

lemma ends_value_number_end: "ends_value rest \<Longrightarrow> number_end rest"
  by (auto simp: ends_value_def number_end_def is_digit_def split: list.splits)

lemma takeWhile_digits:
  "list_all is_digit ds \<Longrightarrow> number_end rest \<Longrightarrow>
     takeWhile is_digit (ds @ rest) = ds \<and> dropWhile is_digit (ds @ rest) = rest"
  by (induction ds) (auto simp: number_end_def split: list.splits)

lemma parse_fraction_none: "number_end rest \<Longrightarrow> parse_fraction rest = Inr ([], rest)"
  by (auto simp: parse_fraction_def number_end_def split: list.splits)

lemma parse_exponent_none: "number_end rest \<Longrightarrow> parse_exponent rest = Inr ([], rest)"
  by (auto simp: parse_exponent_def number_end_def split: list.splits)

lemma parse_number_nat:
  assumes "number_end rest"
  shows "parse_number (nat_to_string n @ rest) = Inr (JNum (int n), rest)"
proof -
  obtain c cs where s: "nat_to_string n = c # cs"
    using nat_to_string_props[of n] by (cases "nat_to_string n") auto
  from nat_to_string_props[of n] s have d: "is_digit c" "list_all is_digit cs"
    and v: "digits_value (c # cs) = n" and z: "c = CHR ''0'' \<longleftrightarrow> n = 0"
    by auto
  have ne: "c \<noteq> CHR ''-''" using d by (auto simp: is_digit_def)
  show ?thesis
  proof (cases "n = 0")
    case True
    then have "nat_to_string n = ''0''"
      by (subst nat_to_string.simps) (simp add: digit_char_def char_of_eq_iff take_bit_eq_mod)
    then show ?thesis
      using assms
      by (simp add: parse_number_def parse_fraction_none parse_exponent_none is_digit_def
          digits_value_def parseInt_digit_def True)
  next
    case False
    with z have nz: "c \<noteq> CHR ''0''" by simp
    from takeWhile_digits[of "c # cs" rest] d assms
    have tw: "takeWhile is_digit (c # cs @ rest) = c # cs" "dropWhile is_digit (c # cs @ rest) = rest"
      by simp_all
    show ?thesis
      using ne nz d assms v tw
      by (simp add: s parse_number_def parse_fraction_none parse_exponent_none)
  qed
qed

lemma parse_number_int:
  assumes "number_end rest"
  shows "parse_number (number_to_string n @ rest) = Inr (JNum n, rest)"
proof (cases "n < 0")
  case False
  then show ?thesis
    using parse_number_nat[OF assms, of "nat n"] by (simp add: number_to_string_def)
next
  case True
  let ?m = "nat (- n)"
  from True have pos: "?m \<noteq> 0" by simp
  obtain c cs where s: "nat_to_string ?m = c # cs"
    using nat_to_string_props[of ?m] by (cases "nat_to_string ?m") auto
  from nat_to_string_props[of ?m] s pos have d: "is_digit c" "list_all is_digit cs"
    and v: "digits_value (c # cs) = ?m" and nz: "c \<noteq> CHR ''0''"
    by auto
  from takeWhile_digits[of "c # cs" rest] d assms
  have tw: "takeWhile is_digit (c # cs @ rest) = c # cs" "dropWhile is_digit (c # cs @ rest) = rest"
    by simp_all
  show ?thesis
    using True nz d assms v tw
    by (simp add: number_to_string_def s parse_number_def parse_fraction_none parse_exponent_none)
qed

lemma number_to_string_first:
  "\<exists>c cs. number_to_string n = c # cs \<and> (c = CHR ''-'' \<or> is_digit c)"
  using nat_to_string_props[of "nat n"] nat_to_string_props[of "nat (- n)"]
  by (cases "nat_to_string (nat n)") (auto simp: number_to_string_def)


subsection \<open>Values\<close>

lemma all_spaces_ws: "all_spaces ind \<Longrightarrow> list_all is_ws ind"
  by (induction ind) (auto simp: all_spaces_def is_ws_def)

lemma all_spaces_more: "all_spaces ind \<Longrightarrow> all_spaces (ind @ ''  '')"
  by (simp add: all_spaces_def)

lemma newline_indent_ws: "all_spaces ind \<Longrightarrow> list_all is_ws (CHR 0x0A # ind)"
  by (simp add: all_spaces_ws is_ws_def)

lemma value_start_props:
  "value_start c \<Longrightarrow> \<not> is_ws c \<and> c \<noteq> CHR '']'' \<and> c \<noteq> CHR ''}''"
  by (auto simp: value_start_def is_ws_def is_digit_def)

lemma serialize_first:
  "store_value v \<Longrightarrow> \<exists>c cs. serialize ind v = c # cs \<and> value_start c"
proof (cases v)
  case (JNum n)
  then show ?thesis using number_to_string_first[of n] by (auto simp: value_start_def)
qed (auto simp: value_start_def quote_string_def)

lemma parse_value_null:
  "parse_value (Suc f) (''null'' @ rest) = Inr (JNull, rest)"
  by (simp add: skip_ws_nonws is_ws_def)

lemma parse_value_bool:
  "parse_value (Suc f) ((if b then ''true'' else ''false'') @ rest) = Inr (JBool b, rest)"
  by (simp add: skip_ws_nonws is_ws_def)

lemma parse_value_string:
  "parse_value (Suc f) (quote_string s @ rest) = Inr (JStr s, rest)"
proof -
  have "quote_string s @ rest = CHR 0x22 # (concat (map quote_char s) @ CHR 0x22 # rest)"
    by (simp add: quote_string_def)
  then show ?thesis
    by (simp add: skip_ws_nonws is_ws_def parse_string_body_quoted)
qed

lemma parse_value_number:
  assumes "ends_value rest"
  shows "parse_value (Suc f) (number_to_string n @ rest) = Inr (JNum n, rest)"
proof -
  obtain c cs where s: "number_to_string n = c # cs" and c: "c = CHR ''-'' \<or> is_digit c"
    using number_to_string_first[of n] by blast
  from c have nw: "\<not> is_ws c" and k: "c \<noteq> CHR ''n''" "c \<noteq> CHR ''t''" "c \<noteq> CHR ''f''"
    "c \<noteq> CHR 0x22" "c \<noteq> CHR ''[''" "c \<noteq> CHR ''{''"
    by (auto simp: is_ws_def is_digit_def)
  have "parse_value (Suc f) (c # cs @ rest) = parse_number (c # cs @ rest)"
    using nw k c by (simp add: skip_ws_nonws)
  also have "\<dots> = Inr (JNum n, rest)"
    using parse_number_int[OF ends_value_number_end[OF assms], of n] by (simp add: s)
  finally show ?thesis by (simp add: s)
qed

lemma put_property_new: "k \<notin> fst ` set ms \<Longrightarrow> put_property ms k v = ms @ [(k, v)]"
  by (induction ms) auto

lemma ends_value_comma: "ends_value (CHR '','' # s)" and ends_value_newline: "ends_value (CHR 0x0A # s)"
  by (simp_all add: ends_value_def)

lemma parse_elements_join:
  assumes P: "\<And>v ind rest fuel. v \<in> set vs \<Longrightarrow> all_spaces ind \<Longrightarrow> ends_value rest \<Longrightarrow>
                fuel_of v \<le> fuel \<Longrightarrow> store_value v \<Longrightarrow>
                parse_value fuel (serialize ind v @ rest) = Inr (v, rest)"
    and "vs \<noteq> []" "list_all store_value vs" "all_spaces ind" "all_spaces ind'"
    and "sum_list (map (\<lambda>v. Suc (fuel_of v)) vs) \<le> fuel"
  shows "parse_elements fuel
           (join_lines (CHR '','' # CHR 0x0A # ind') (map (serialize ind') vs) @
            CHR 0x0A # ind @ CHR '']'' # rest) acc = Inr (JArr (acc @ vs), rest)"
  using assms
proof (induction vs arbitrary: acc fuel)
  case Nil
  then show ?case by simp
next
  case (Cons v vs)
  from Cons.prems(6) obtain f where fuel: "fuel = Suc f" and fv: "fuel_of v \<le> f"
    and frest: "sum_list (map (\<lambda>v. Suc (fuel_of v)) vs) \<le> f"
    by (cases fuel) auto
  from Cons.prems(3) have sv: "store_value v" and svs: "list_all store_value vs" by simp_all
  show ?case
  proof (cases vs)
    case Nil
    have "parse_value f (serialize ind' v @ CHR 0x0A # ind @ CHR '']'' # rest) =
            Inr (v, CHR 0x0A # ind @ CHR '']'' # rest)"
      by (rule Cons.prems(1)) (simp_all add: Cons.prems ends_value_newline fv sv)
    moreover have "skip_ws (CHR 0x0A # ind @ CHR '']'' # rest) = CHR '']'' # rest"
      using skip_ws_append[OF newline_indent_ws[OF Cons.prems(4)], of "CHR '']'' # rest"]
      by (simp add: skip_ws_nonws is_ws_def)
    ultimately show ?thesis by (simp add: Nil fuel)
  next
    case inner: (Cons v' vs')
    then have ne: "vs \<noteq> []" by simp
    let ?tail = "join_lines (CHR '','' # CHR 0x0A # ind') (map (serialize ind') vs) @
                 CHR 0x0A # ind @ CHR '']'' # rest"
    have "parse_value f (serialize ind' v @ CHR '','' # CHR 0x0A # ind' @ ?tail) =
            Inr (v, CHR '','' # CHR 0x0A # ind' @ ?tail)"
      by (rule Cons.prems(1)) (simp_all add: Cons.prems ends_value_comma fv sv)
    moreover have "parse_elements f (CHR 0x0A # ind' @ ?tail) (acc @ [v]) = Inr (JArr ((acc @ [v]) @ vs), rest)"
    proof -
      have "parse_elements f ((CHR 0x0A # ind') @ ?tail) (acc @ [v]) = parse_elements f ?tail (acc @ [v])"
        by (rule parse_elements_skip) (rule newline_indent_ws[OF Cons.prems(5)])
      also have "\<dots> = Inr (JArr ((acc @ [v]) @ vs), rest)"
        by (rule Cons.IH) (simp_all add: Cons.prems(1) Cons.prems(4) Cons.prems(5) svs frest ne)
      finally show ?thesis by simp
    qed
    ultimately show ?thesis
      by (simp add: inner fuel skip_ws_nonws is_ws_def)
  qed
qed

lemma parse_members_join:
  assumes P: "\<And>m ind rest fuel. m \<in> set ms \<Longrightarrow> all_spaces ind \<Longrightarrow> ends_value rest \<Longrightarrow>
                fuel_of (snd m) \<le> fuel \<Longrightarrow> store_value (snd m) \<Longrightarrow>
                parse_value fuel (serialize ind (snd m) @ rest) = Inr (snd m, rest)"
    and "ms \<noteq> []" "list_all (\<lambda>m. store_value (snd m)) ms" "distinct (map fst (acc @ ms))"
    and "all_spaces ind" "all_spaces ind'"
    and "sum_list (map (\<lambda>m. Suc (fuel_of (snd m))) ms) \<le> fuel"
  shows "parse_members fuel
           (join_lines (CHR '','' # CHR 0x0A # ind')
              (map (\<lambda>(k, v). quote_string k @ '': '' @ serialize ind' v) ms) @
            CHR 0x0A # ind @ CHR ''}'' # rest) acc = Inr (JObj (acc @ ms), rest)"
  using assms
proof (induction ms arbitrary: acc fuel)
  case Nil
  then show ?case by simp
next
  case (Cons m ms)
  obtain k v where m: "m = (k, v)" by (cases m)
  from Cons.prems(7) obtain f where fuel: "fuel = Suc f" and fv: "fuel_of v \<le> f"
    and frest: "sum_list (map (\<lambda>m. Suc (fuel_of (snd m))) ms) \<le> f"
    by (cases fuel) (auto simp: m)
  from Cons.prems(3) have sv: "store_value v" and svs: "list_all (\<lambda>m. store_value (snd m)) ms"
    by (simp_all add: m)
  from Cons.prems(4) have new: "k \<notin> fst ` set acc" and d': "distinct (map fst ((acc @ [(k, v)]) @ ms))"
    by (auto simp: m)
  have key: "parse_string_body (concat (map quote_char k) @ CHR 0x22 # s) = Inr (k, s)" for s
    by (rule parse_string_body_quoted)
  have pv: "parse_value f (CHR '' '' # serialize ind' v @ r) = Inr (v, r)" if "ends_value r" for r
  proof -
    have "parse_value f ([CHR '' ''] @ serialize ind' v @ r) = parse_value f (serialize ind' v @ r)"
      by (rule parse_value_skip) (simp add: is_ws_def)
    also have "\<dots> = Inr (snd m, r)"
      unfolding m snd_conv
      using Cons.prems(1)[of m ind' r f] that fv sv Cons.prems(6) by (simp add: m)
    finally show ?thesis by (simp add: m)
  qed
  show ?case
  proof (cases ms)
    case Nil
    have "skip_ws (CHR 0x0A # ind @ CHR ''}'' # rest) = CHR ''}'' # rest"
      using skip_ws_append[OF newline_indent_ws[OF Cons.prems(5)], of "CHR ''}'' # rest"]
      by (simp add: skip_ws_nonws is_ws_def)
    then show ?thesis
      using pv[of "CHR 0x0A # ind @ CHR ''}'' # rest"] new
      by (simp add: Nil fuel m quote_string_def skip_ws_nonws is_ws_def key ends_value_newline
          put_property_new)
  next
    case inner: (Cons m' ms')
    then have ne: "ms \<noteq> []" by simp
    let ?tail = "join_lines (CHR '','' # CHR 0x0A # ind')
              (map (\<lambda>(k, v). quote_string k @ '': '' @ serialize ind' v) ms) @
            CHR 0x0A # ind @ CHR ''}'' # rest"
    have "parse_members f (CHR 0x0A # ind' @ ?tail) (acc @ [(k, v)]) =
            Inr (JObj ((acc @ [(k, v)]) @ ms), rest)"
    proof -
      have "parse_members f ((CHR 0x0A # ind') @ ?tail) (acc @ [(k, v)]) =
              parse_members f ?tail (acc @ [(k, v)])"
        by (rule parse_members_skip) (rule newline_indent_ws[OF Cons.prems(6)])
      also have "\<dots> = Inr (JObj ((acc @ [(k, v)]) @ ms), rest)"
        by (rule Cons.IH) (use Cons.prems(1,5,6) svs frest ne d' in simp_all)
      finally show ?thesis by simp
    qed
    then show ?thesis
      using pv[of "CHR '','' # CHR 0x0A # ind' @ ?tail"] new
      by (simp add: inner fuel m quote_string_def skip_ws_nonws is_ws_def key ends_value_comma
          put_property_new)
  qed
qed


lemma parse_value_serialize:
  "all_spaces ind \<Longrightarrow> ends_value rest \<Longrightarrow> fuel_of v \<le> fuel \<Longrightarrow> store_value v \<Longrightarrow>
     parse_value fuel (serialize ind v @ rest) = Inr (v, rest)"
proof (induction v arbitrary: ind rest fuel)
  case JNull
  then show ?case using parse_value_null by (cases fuel) simp_all
next
  case (JBool b)
  then obtain f where "fuel = Suc f" by (cases fuel) auto
  then show ?case using parse_value_bool[of f b rest] by simp
next
  case (JNum n)
  then obtain f where "fuel = Suc f" by (cases fuel) auto
  with JNum show ?case using parse_value_number[of rest f n] by simp
next
  case (JNumOther lit)
  then show ?case by simp
next
  case (JStr s)
  then obtain f where "fuel = Suc f" by (cases fuel) auto
  then show ?case using parse_value_string[of f s rest] by simp
next
  case (JArr vs)
  from JArr.prems(3) obtain f where fuel: "fuel = Suc f"
    and f: "sum_list (map (\<lambda>v. Suc (fuel_of v)) vs) \<le> f"
    by (cases fuel) auto
  show ?case
  proof (cases "vs = []")
    case True
    then show ?thesis by (simp add: fuel skip_ws_nonws is_ws_def)
  next
    case False
    define ind' where "ind' = ind @ ''  ''"
    define body where "body = join_lines (CHR '','' # CHR 0x0A # ind') (map (serialize ind') vs) @
                 CHR 0x0A # ind @ CHR '']'' # rest"
    have sp: "all_spaces ind'"
      unfolding ind'_def by (rule all_spaces_more[OF JArr.prems(1)])
    from False obtain v vs' where vs: "vs = v # vs'" by (cases vs) auto
    with JArr.prems(4) have "store_value v" by simp
    then obtain c cs where first: "serialize ind' v = c # cs" and st: "value_start c"
      using serialize_first by blast
    have "\<exists>cs'. body = c # cs'"
      unfolding body_def by (cases vs') (simp_all add: vs first)
    then obtain cs' where body: "body = c # cs'" by blast
    have ws: "list_all is_ws (CHR 0x0A # ind')"
      by (rule newline_indent_ws[OF sp])
    have "skip_ws ((CHR 0x0A # ind') @ body) = skip_ws body"
      by (rule skip_ws_append[OF ws])
    also have "\<dots> = c # cs'"
      using value_start_props[OF st] by (simp add: body skip_ws_nonws)
    finally have sk: "skip_ws ((CHR 0x0A # ind') @ body) = c # cs'" .
    have "parse_elements f ((CHR 0x0A # ind') @ body) [] = parse_elements f body []"
      by (rule parse_elements_skip[OF ws])
    also have "\<dots> = Inr (JArr ([] @ vs), rest)"
      unfolding body_def
      by (rule parse_elements_join) (use JArr.IH JArr.prems False f sp in simp_all)
    finally have el: "parse_elements f ((CHR 0x0A # ind') @ body) [] = Inr (JArr vs, rest)"
      by simp
    have ser: "serialize ind (JArr vs) @ rest = CHR ''['' # ((CHR 0x0A # ind') @ body)"
      using False by (simp add: body_def ind'_def)
    have "parse_value (Suc f) (CHR ''['' # ((CHR 0x0A # ind') @ body)) = Inr (JArr vs, rest)"
      using value_start_props[OF st]
      by (simp add: skip_ws_nonws[of "CHR ''[''"] is_ws_def sk el del: append.simps)
    then show ?thesis
      by (simp only: ser fuel)
  qed
next
  case (JObj ms)
  from JObj.prems(3) obtain f where fuel: "fuel = Suc f"
    and f: "sum_list (map (\<lambda>m. Suc (fuel_of (snd m))) ms) \<le> f"
    by (cases fuel) auto
  show ?case
  proof (cases "ms = []")
    case True
    then show ?thesis by (simp add: fuel skip_ws_nonws is_ws_def)
  next
    case False
    define ind' where "ind' = ind @ ''  ''"
    define body where "body = join_lines (CHR '','' # CHR 0x0A # ind')
                   (map (\<lambda>(k, v). quote_string k @ '': '' @ serialize ind' v) ms) @
                 CHR 0x0A # ind @ CHR ''}'' # rest"
    have sp: "all_spaces ind'"
      unfolding ind'_def by (rule all_spaces_more[OF JObj.prems(1)])
    from False obtain k v ms' where ms: "ms = (k, v) # ms'" by (cases ms) auto
    have "\<exists>cs'. body = CHR 0x22 # cs'"
      unfolding body_def by (cases ms') (simp_all add: ms quote_string_def)
    then obtain cs' where body: "body = CHR 0x22 # cs'" by blast
    have ws: "list_all is_ws (CHR 0x0A # ind')"
      by (rule newline_indent_ws[OF sp])
    have "skip_ws ((CHR 0x0A # ind') @ body) = skip_ws body"
      by (rule skip_ws_append[OF ws])
    also have "\<dots> = CHR 0x22 # cs'"
      by (simp add: body skip_ws_nonws is_ws_def)
    finally have sk: "skip_ws ((CHR 0x0A # ind') @ body) = CHR 0x22 # cs'" .
    have IH: "parse_value fuel (serialize ind (snd m) @ rest) = Inr (snd m, rest)"
      if "m \<in> set ms" "all_spaces ind" "ends_value rest" "fuel_of (snd m) \<le> fuel" "store_value (snd m)"
      for m ind rest fuel
      using JObj.IH[of m "snd m" ind rest fuel] that by (cases m) auto
    have "parse_members f ((CHR 0x0A # ind') @ body) [] = parse_members f body []"
      by (rule parse_members_skip[OF ws])
    also have "\<dots> = Inr (JObj ([] @ ms), rest)"
      unfolding body_def
      by (rule parse_members_join) (use IH JObj.prems False f sp in simp_all)
    finally have el: "parse_members f ((CHR 0x0A # ind') @ body) [] = Inr (JObj ms, rest)"
      by simp
    have ser: "serialize ind (JObj ms) @ rest = CHR ''{'' # ((CHR 0x0A # ind') @ body)"
      using False by (simp add: body_def ind'_def)
    have "parse_value (Suc f) (CHR ''{'' # ((CHR 0x0A # ind') @ body)) = Inr (JObj ms, rest)"
      by (simp add: skip_ws_nonws[of "CHR ''{''"] is_ws_def sk el del: append.simps)
    then show ?thesis
      by (simp only: ser fuel)
  qed
qed

lemma length_join_lines:
  "length (join_lines sep xs) = sum_list (map length xs) + (length xs - 1) * length sep"
  by (induction sep xs rule: join_lines.induct) simp_all

lemma fuel_le_length: "store_value v \<Longrightarrow> fuel_of v \<le> length (serialize ind v)"
proof (induction v arbitrary: ind)
  case (JNum n)
  then show ?case using number_to_string_first[of n] by auto
next
  case (JStr s)
  then show ?case by (simp add: quote_string_def)
next
  case (JArr vs)
  have "sum_list (map (\<lambda>v. Suc (fuel_of v)) vs) \<le>
          sum_list (map length (map (serialize (ind @ ''  '')) vs)) + length vs"
    using JArr
  proof (induction vs)
    case Nil
    then show ?case by simp
  next
    case (Cons v vs)
    from Cons.prems(1)[of v "ind @ ''  ''"] Cons.prems(2)
    have "fuel_of v \<le> length (serialize (ind @ ''  '') v)" by simp
    moreover have "sum_list (map (\<lambda>v. Suc (fuel_of v)) vs) \<le>
          sum_list (map length (map (serialize (ind @ ''  '')) vs)) + length vs"
      by (rule Cons.IH) (use Cons.prems in auto)
    ultimately show ?case by simp
  qed
  then show ?case by (cases vs) (simp_all add: length_join_lines)
next
  case (JObj ms)
  have "sum_list (map (\<lambda>m. Suc (fuel_of (snd m))) ms) \<le>
          sum_list (map length (map (\<lambda>(k, v). quote_string k @ '': '' @ serialize (ind @ ''  '') v) ms))
            + length ms"
    using JObj
  proof (induction ms)
    case Nil
    then show ?case by simp
  next
    case (Cons m ms)
    obtain k v where m: "m = (k, v)" by (cases m)
    from Cons.prems(1)[of m v "ind @ ''  ''"] Cons.prems(2)
    have "fuel_of v \<le> length (serialize (ind @ ''  '') v)" by (simp add: m)
    moreover have "sum_list (map (\<lambda>m. Suc (fuel_of (snd m))) ms) \<le>
          sum_list (map length (map (\<lambda>(k, v). quote_string k @ '': '' @ serialize (ind @ ''  '') v) ms))
            + length ms"
      by (rule Cons.IH) (use Cons.prems in auto)
    ultimately show ?case by (simp add: m)
  qed
  then show ?case by (cases ms) (simp_all add: length_join_lines)
qed simp_all

lemma JSON_round_trip: "store_value v \<Longrightarrow> JSON_parse (JSON_stringify v) = Inr v"
proof -
  assume sv: "store_value v"
  have "parse_value (Suc (length (serialize [] v))) (serialize [] v @ []) = Inr (v, [])"
    by (rule parse_value_serialize)
      (use sv fuel_le_length[OF sv, of "[]"] in \<open>simp_all add: all_spaces_def ends_value_def\<close>)
  then show ?thesis
    by (simp add: JSON_parse_def JSON_stringify_def skip_ws_def)
qed

subsection \<open>The state and its JSON value\<close>

lemma all_some_map_Some: "all_some (map Some xs) = Some xs"
  by (induction xs) simp_all

lemma transition_round_trip: "transition_of_json (transition_to_json t) = Some t"
  by (simp add: transition_of_json_def transition_to_json_def get_property_def json_string_def
      json_number_def)

lemma session_round_trip: "session_of_json (session_to_json s) = Some s"
proof -
  have "map transition_of_json (map transition_to_json (history s)) = map Some (history s)"
    by (simp add: transition_round_trip comp_def)
  then have "all_some (map transition_of_json (map transition_to_json (history s))) =
             Some (history s)"
    by (simp only: all_some_map_Some)
  then show ?thesis
    by (simp add: session_of_json_def session_to_json_def get_property_def json_string_def
        json_number_def)
qed

lemma stats_round_trip: "stats_of_json (stats_to_json st) = Some st"
  by (simp add: stats_of_json_def stats_to_json_def get_property_def json_number_def)

lemma state_round_trip: "state_of_json (state_to_json st) = Some st"
proof -
  have "map (\<lambda>(address, s). map_option (Pair address) (session_of_json s))
          (map (\<lambda>(address, s). (address, session_to_json s)) (sessions st)) =
        map Some (sessions st)"
    by (simp add: session_round_trip comp_def case_prod_beta)
  then have "all_some (map (\<lambda>(address, s). map_option (Pair address) (session_of_json s))
                  (map (\<lambda>(address, s). (address, session_to_json s)) (sessions st))) =
        Some (sessions st)"
    by (simp only: all_some_map_Some)
  then show ?thesis
    by (simp add: state_of_json_def state_to_json_def get_property_def json_bool_def
        json_number_def stats_round_trip)
qed

lemma store_value_transition: "store_value (transition_to_json t)"
  by (simp add: transition_to_json_def)

lemma store_value_session: "store_value (data s) \<Longrightarrow> store_value (session_to_json s)"
  by (simp add: session_to_json_def list_all_iff store_value_transition)

lemma store_value_state: "store_state st \<Longrightarrow> store_value (state_to_json st)"
  by (auto simp: store_state_def state_to_json_def stats_to_json_def list_all_iff comp_def
      case_prod_beta store_value_session)

lemma map_fst_put_property:
  "map fst (put_property ms k v) =
     (if k \<in> fst ` set ms then map fst ms else map fst ms @ [k])"
  by (induction ms) force+

lemma distinct_put_property:
  "distinct (map fst ms) \<Longrightarrow> distinct (map fst (put_property ms k v))"
  by (simp add: map_fst_put_property)

lemma set_put_property: "set (put_property ms k v) \<subseteq> insert (k, v) (set ms)"
  by (induction ms) (auto split: if_splits)

lemma store_state_put:
  assumes "store_state st" "store_value (data s)"
  shows "store_state (st\<lparr>sessions := put_property (sessions st) a s\<rparr>)"
  using assms set_put_property[of "sessions st" a s]
  by (auto simp: store_state_def distinct_put_property list_all_iff)

lemma map_of_None_fst: "map_of ms k = None \<Longrightarrow> k \<notin> fst ` set ms"
  by (simp add: map_of_eq_None_iff)

lemma store_state_getUserSession:
  assumes "store_state (state sm)"
  shows "store_state (state (snd (getUserSession sm a now)))"
    and "store_value (data (fst (getUserSession sm a now)))"
proof -
  show "store_state (state (snd (getUserSession sm a now)))"
  proof (cases "map_of (sessions (state sm)) a")
    case None
    then have "a \<notin> fst ` set (sessions (state sm))" by (rule map_of_None_fst)
    with assms None show ?thesis
      by (auto simp: getUserSession_def Let_def store_state_def)
  next
    case (Some s)
    then have "(a, s) \<in> set (sessions (state sm))" by (rule map_of_SomeD)
    with assms have "store_value (data s)" by (auto simp: store_state_def list_all_iff)
    with assms Some show ?thesis
      using store_state_put[of "state sm" "s\<lparr>lastActivity := now\<rparr>" a]
      by (simp add: getUserSession_def Let_def)
  qed
  show "store_value (data (fst (getUserSession sm a now)))"
  proof (cases "map_of (sessions (state sm)) a")
    case None
    then show ?thesis by (simp add: getUserSession_def Let_def)
  next
    case (Some s)
    then have "(a, s) \<in> set (sessions (state sm))" by (rule map_of_SomeD)
    with assms have "store_value (data s)" by (auto simp: store_state_def list_all_iff)
    with Some show ?thesis by (simp add: getUserSession_def Let_def)
  qed
qed

lemma store_state_updateUserSession:
  assumes "store_state (state sm)" "case upd_data u of None \<Rightarrow> True | Some d \<Rightarrow> store_value d"
  shows "store_state (state (updateUserSession sm a u now))"
proof -
  obtain s sm1 where g: "getUserSession sm a now = (s, sm1)" by (cases "getUserSession sm a now")
  with store_state_getUserSession[OF assms(1), of a now]
  have 1: "store_state (state sm1)" and 2: "store_value (data s)" by simp_all
  show ?thesis
    using assms(2) 2 store_state_put[OF 1]
    by (simp add: updateUserSession_def g Let_def split: option.splits)
qed

lemma store_state_filter:
  "store_state st \<Longrightarrow> store_state (st\<lparr>sessions := filter P (sessions st)\<rparr>)"
  by (auto simp: store_state_def list_all_iff distinct_map_filter)

text \<open>
  Claim C8. For every store state whose addresses are distinct and whose session data are
  values the store produces (integers, strings, arrays, and objects with distinct property
  names), the text \<open>saveState\<close> writes is read back by \<open>loadState\<close> as the same value, and
  the store built from it has the same state, hence the same mapping of addresses to session
  fields. Such states are the reachable ones: the default state is one, and every operation
  of the store keeps the property.
\<close>

theorem state_round_trip_save_load:
  "(store_state (state sm) \<and> writable sm \<longrightarrow>
      JSON_parse (JSON_stringify (state_to_json (state sm))) = Inr (state_to_json (state sm)) \<and>
      loadState (state_file (saveState sm)) now = Some (state_to_json (state sm)) \<and>
      map_option state (StateManager_new (state_file (saveState sm)) w now) = Some (state sm) \<and>
      map_option (\<lambda>m. sessions (state m)) (StateManager_new (state_file (saveState sm)) w now) =
        Some (sessions (state sm))) \<and>
   store_state (default_state now) \<and>
   (store_state (state sm) \<longrightarrow> store_state (state (snd (getUserSession sm a now)))) \<and>
   (store_state (state sm) \<and> (case upd_data u of None \<Rightarrow> True | Some d \<Rightarrow> store_value d) \<longrightarrow>
      store_state (state (updateUserSession sm a u now))) \<and>
   (store_state (state sm) \<longrightarrow> store_state (state (removeUserSession sm a))) \<and>
   (store_state (state sm) \<longrightarrow> store_state (state (cleanInactiveSessions sm h now))) \<and>
   (store_state (state sm) \<longrightarrow> store_state (state (incrementMessageCount sm))) \<and>
   (store_state (state sm) \<longrightarrow> store_state (state (enableBot sm))) \<and>
   (store_state (state sm) \<longrightarrow> store_state (state (disableBot sm minutes now)))"
proof (intro conjI impI)
  assume h: "store_state (state sm) \<and> writable sm"
  then have rt: "JSON_parse (JSON_stringify (state_to_json (state sm))) = Inr (state_to_json (state sm))"
    by (simp add: JSON_round_trip store_value_state)
  then show "JSON_parse (JSON_stringify (state_to_json (state sm))) = Inr (state_to_json (state sm))" .
  from h rt show ld: "loadState (state_file (saveState sm)) now = Some (state_to_json (state sm))"
    by (simp add: saveState_def loadState_def)
  then show "map_option state (StateManager_new (state_file (saveState sm)) w now) = Some (state sm)"
    by (simp add: StateManager_new_def state_round_trip)
  from ld show "map_option (\<lambda>m. sessions (state m)) (StateManager_new (state_file (saveState sm)) w now) =
        Some (sessions (state sm))"
    by (simp add: StateManager_new_def state_round_trip)
next
  show "store_state (default_state now)"
    by (simp add: store_state_def default_state_def)
next
  assume "store_state (state sm)"
  then show "store_state (state (snd (getUserSession sm a now)))"
    by (rule store_state_getUserSession)
next
  assume "store_state (state sm) \<and> (case upd_data u of None \<Rightarrow> True | Some d \<Rightarrow> store_value d)"
  then show "store_state (state (updateUserSession sm a u now))"
    by (simp add: store_state_updateUserSession)
next
  assume "store_state (state sm)"
  then show "store_state (state (removeUserSession sm a))"
    by (simp add: removeUserSession_def store_state_filter)
next
  assume "store_state (state sm)"
  then show "store_state (state (cleanInactiveSessions sm h now))"
    by (simp add: cleanInactiveSessions_def Let_def store_state_filter)
next
  assume "store_state (state sm)"
  then show "store_state (state (incrementMessageCount sm))"
    by (simp add: incrementMessageCount_def store_state_def)
next
  assume "store_state (state sm)"
  then show "store_state (state (enableBot sm))"
    by (simp add: enableBot_def store_state_def)
next
  assume "store_state (state sm)"
  then show "store_state (state (disableBot sm minutes now))"
    by (simp add: disableBot_def Let_def store_state_def)
qed

theorem state_round_trip_save_load_witness:
  "store_state (state (sample_manager (quote_state ''coleta_email''))) \<and>
   writable (sample_manager (quote_state ''coleta_email'')) \<and>
   loadState (state_file (saveState (sample_manager (quote_state ''coleta_email'')))) 1000 =
     Some (state_to_json (quote_state ''coleta_email'')) \<and>
   map_option (\<lambda>m. sessions (state m))
     (StateManager_new (state_file (saveState (sample_manager (quote_state ''coleta_email''))))
        True 1000) =
     Some [(''5511999999999@c.us'', quote_session ''coleta_email'')] \<and>
   store_value (JObj [(''cotacao'', JObj [])]) \<and>
   store_state (state (updateUserSession (sample_manager (quote_state ''coleta_email''))
     ''5511888888888@c.us'' (no_updates\<lparr>upd_data := Some (JObj [(''cotacao'', JObj [])])\<rparr>)
     1000))"
proof -
  define sm where "sm = sample_manager (quote_state ''coleta_email'')"
  define u where "u = no_updates\<lparr>upd_data := Some (JObj [(''cotacao'', JObj [])])\<rparr>"
  have s: "store_state (state sm)"
    by (simp add: sm_def sample_manager_def quote_state_def quote_session_def store_state_def)
  have w: "writable sm"
    by (simp add: sm_def sample_manager_def)
  have d: "store_value (JObj [(''cotacao'', JObj [])])"
    by simp
  have du: "case upd_data u of None \<Rightarrow> True | Some d \<Rightarrow> store_value d"
    by (simp add: u_def)
  have e: "state sm = quote_state ''coleta_email''"
    by (simp add: sm_def sample_manager_def)
  have e': "sessions (state sm) = [(''5511999999999@c.us'', quote_session ''coleta_email'')]"
    by (simp add: e quote_state_def)
  note t = state_round_trip_save_load [where sm = sm and now = 1000 and w = True and u = u
      and a = "''5511888888888@c.us''"]
  from t s w have 1: "loadState (state_file (saveState sm)) 1000 = Some (state_to_json (state sm))"
    by blast
  from t s w have 2: "map_option (\<lambda>m. sessions (state m))
      (StateManager_new (state_file (saveState sm)) True 1000) = Some (sessions (state sm))"
    by blast
  from t s du have 3: "store_state (state (updateUserSession sm ''5511888888888@c.us'' u 1000))"
    by blast
  from 1 have l1: "loadState (state_file (saveState sm)) 1000 =
      Some (state_to_json (quote_state ''coleta_email''))"
    by (simp only: e)
  from 2 have l2: "map_option (\<lambda>m. sessions (state m))
      (StateManager_new (state_file (saveState sm)) True 1000) =
      Some [(''5511999999999@c.us'', quote_session ''coleta_email'')]"
    by (simp only: e')
  show ?thesis
    unfolding sm_def [symmetric] u_def [symmetric] using s w d l1 l2 3 by blast
qed

end
